theory Spec2Isabelle
  imports Main "HOL-Library.Word" "HOL-Library.Sublist"
begin

section \<open>Strings and buffers\<close>

text \<open>
  File names, messages, MIME types and URLs are modelled as \<open>string\<close> (lists of 8-bit
  characters), Node \<open>Buffer\<close>s as lists of bytes. The text of a document, which a parser
  extracts or \<open>fs.readFile(path, 'utf8')\<close> decodes, is a list of Unicode code points: a
  surrogate pair of the JavaScript string is one code point above \<open>0xFFFF\<close>, a lone
  surrogate is its own code point.
\<close>

type_synonym byte = "8 word"
type_synonym buffer = "byte list"
type_synonym unicode = "nat list"

definition toLowerCase_char :: "char \<Rightarrow> char" where
  "toLowerCase_char c =
     (let n = (of_char c :: nat) in if 65 \<le> n \<and> n \<le> 90 then char_of (n + 32) else c)"

definition toLowerCase :: "string \<Rightarrow> string" where
  "toLowerCase s = map toLowerCase_char s"

text \<open>
  \<open>String.prototype.trim\<close> removes the white space and the line terminators of
  ECMAScript at both ends.
\<close>

definition isWhiteSpace :: "nat \<Rightarrow> bool" where
  "isWhiteSpace n =
     (n \<in> {0x09, 0x0A, 0x0B, 0x0C, 0x0D, 0x20, 0xA0, 0x1680, 0x2028, 0x2029, 0x202F, 0x205F,
            0x3000, 0xFEFF}
      \<or> (0x2000 \<le> n \<and> n \<le> 0x200A))"

definition trim :: "unicode \<Rightarrow> unicode" where
  "trim s = rev (dropWhile isWhiteSpace (rev (dropWhile isWhiteSpace s)))"

text \<open>\<open>text.split(/\r?\n/)\<close>: a line ends at a line feed, with the carriage return before it.\<close>

fun split_lines_acc :: "unicode \<Rightarrow> unicode \<Rightarrow> unicode list" where
  "split_lines_acc acc [] = [rev acc]"
| "split_lines_acc acc [c] =
     (if c = 0x0A then [rev acc, []] else [rev (c # acc)])"
| "split_lines_acc acc (c # d # cs) =
     (if c = 0x0A then rev acc # split_lines_acc [] (d # cs)
      else if c = 0x0D \<and> d = 0x0A then rev acc # split_lines_acc [] cs
      else split_lines_acc (c # acc) (d # cs))"

definition split_lines :: "unicode \<Rightarrow> unicode list" where
  "split_lines s = split_lines_acc [] s"

section \<open>UTF-8\<close>

text \<open>
  \<open>buffer.toString('utf8')\<close>, which \<open>fs.readFile(path, 'utf8')\<close> applies to the content of
  the file, follows the decoder of the Encoding Standard: a byte below \<open>0x80\<close> is its
  code point; a lead byte \<open>C2..DF\<close>, \<open>E0..EF\<close> or \<open>F0..F4\<close> takes one, two or three
  continuation bytes \<open>80..BF\<close>, where the first continuation is further bounded after
  \<open>E0\<close>, \<open>ED\<close>, \<open>F0\<close> and \<open>F4\<close> (no overlong form, no surrogate, nothing above
  \<open>0x10FFFF\<close>); the payload bits of a byte are what remains after its marker is
  subtracted. Every other byte, and every sequence cut short, is an error: the bytes read
  so far are dropped, the byte that does not fit is read again as a first byte.
  \<open>utf8_scan\<close> gives the code points in order, \<open>None\<close> for each error.
\<close>

definition in_range :: "nat \<Rightarrow> nat \<Rightarrow> byte \<Rightarrow> bool" where
  "in_range lo hi b = (lo \<le> unat b \<and> unat b \<le> hi)"

fun utf8_scan :: "buffer \<Rightarrow> nat option list" where
  "utf8_scan [] = []"
| "utf8_scan (b # bs) =
     (let n = unat b in
      if n < 0x80 then Some n # utf8_scan bs
      else if 0xC2 \<le> n \<and> n \<le> 0xDF then
        (case bs of
           [] \<Rightarrow> [None]
         | b1 # r1 \<Rightarrow>
             if in_range 0x80 0xBF b1 then
               Some ((n - 0xC0) * 64 + (unat b1 - 0x80)) # utf8_scan r1
             else None # utf8_scan bs)
      else if 0xE0 \<le> n \<and> n \<le> 0xEF then
        (case bs of
           [] \<Rightarrow> [None]
         | b1 # r1 \<Rightarrow>
             if in_range (if n = 0xE0 then 0xA0 else 0x80) (if n = 0xED then 0x9F else 0xBF) b1 then
               (case r1 of
                  [] \<Rightarrow> [None]
                | b2 # r2 \<Rightarrow>
                    if in_range 0x80 0xBF b2 then
                      Some ((n - 0xE0) * 4096 + (unat b1 - 0x80) * 64 + (unat b2 - 0x80))
                        # utf8_scan r2
                    else None # utf8_scan r1)
             else None # utf8_scan bs)
      else if 0xF0 \<le> n \<and> n \<le> 0xF4 then
        (case bs of
           [] \<Rightarrow> [None]
         | b1 # r1 \<Rightarrow>
             if in_range (if n = 0xF0 then 0x90 else 0x80) (if n = 0xF4 then 0x8F else 0xBF) b1 then
               (case r1 of
                  [] \<Rightarrow> [None]
                | b2 # r2 \<Rightarrow>
                    if in_range 0x80 0xBF b2 then
                      (case r2 of
                         [] \<Rightarrow> [None]
                       | b3 # r3 \<Rightarrow>
                           if in_range 0x80 0xBF b3 then
                             Some ((n - 0xF0) * 262144 + (unat b1 - 0x80) * 4096
                                     + (unat b2 - 0x80) * 64 + (unat b3 - 0x80))
                               # utf8_scan r3
                           else None # utf8_scan r2)
                    else None # utf8_scan r1)
             else None # utf8_scan bs)
      else None # utf8_scan bs)"

declare utf8_scan.simps(2) [simp del]

text \<open>The decoded text has the replacement character \<open>U+FFFD\<close> at each error.\<close>

definition utf8_decode :: "buffer \<Rightarrow> unicode" where
  "utf8_decode buf = map (\<lambda>x. case x of None \<Rightarrow> 0xFFFD | Some cp \<Rightarrow> cp) (utf8_scan buf)"

text \<open>A buffer is well-formed UTF-8 when the decoder meets no error in it.\<close>

definition well_formed_utf8 :: "buffer \<Rightarrow> bool" where
  "well_formed_utf8 buf = (None \<notin> set (utf8_scan buf))"

text \<open>
  \<open>fs.writeFile(path, text, 'utf8')\<close> writes one to four bytes for each code point; a
  lone surrogate is written as the replacement character, \<open>EF BF BD\<close>.
\<close>

definition utf8_encode_cp :: "nat \<Rightarrow> buffer" where
  "utf8_encode_cp cp =
     (if cp < 0x80 then [of_nat cp]
      else if cp < 0x800 then [of_nat (0xC0 + cp div 64), of_nat (0x80 + cp mod 64)]
      else if 0xD800 \<le> cp \<and> cp \<le> 0xDFFF then [0xEF, 0xBF, 0xBD]
      else if cp < 0x10000 then
        [of_nat (0xE0 + cp div 4096), of_nat (0x80 + cp div 64 mod 64), of_nat (0x80 + cp mod 64)]
      else if cp < 0x110000 then
        [of_nat (0xF0 + cp div 262144), of_nat (0x80 + cp div 4096 mod 64),
         of_nat (0x80 + cp div 64 mod 64), of_nat (0x80 + cp mod 64)]
      else [0xEF, 0xBF, 0xBD])"

definition utf8_encode :: "unicode \<Rightarrow> buffer" where
  "utf8_encode t = concat (map utf8_encode_cp t)"

section \<open>Node's POSIX path module\<close>

fun split_slash :: "string \<Rightarrow> string list" where
  "split_slash [] = [[]]"
| "split_slash (c # cs) =
     (if c = CHR ''/'' then [] # split_slash cs
      else (case split_slash cs of [] \<Rightarrow> [[c]] | s # ss \<Rightarrow> (c # s) # ss))"

fun join_slash :: "string list \<Rightarrow> string" where
  "join_slash [] = []"
| "join_slash [s] = s"
| "join_slash (s # t # ss) = s @ ''/'' @ join_slash (t # ss)"

text \<open>
  \<open>normalizeString\<close>, segment by segment: empty segments and \<open>.\<close> are dropped, \<open>..\<close>
  removes the segment before it; above the root it is kept only for a relative path.
\<close>

fun normalizeString :: "bool \<Rightarrow> string list \<Rightarrow> string list \<Rightarrow> string list" where
  "normalizeString up res [] = res"
| "normalizeString up res (s # ss) =
     (if s = [] \<or> s = ''.'' then normalizeString up res ss
      else if s = ''..'' then
        (if res \<noteq> [] \<and> last res \<noteq> ''..'' then normalizeString up (butlast res) ss
         else if up then normalizeString up (res @ [''..'']) ss
         else normalizeString up res ss)
      else normalizeString up (res @ [s]) ss)"

definition isAbsolute :: "string \<Rightarrow> bool" where
  "isAbsolute p = (case p of [] \<Rightarrow> False | c # _ \<Rightarrow> c = CHR ''/'')"

definition path_normalize :: "string \<Rightarrow> string" where
  "path_normalize p =
     (if p = [] then ''.''
      else
        let trailing = (last p = CHR ''/'');
            s = join_slash (normalizeString (\<not> isAbsolute p) [] (split_slash p))
        in if s = [] then (if isAbsolute p then ''/'' else if trailing then ''./'' else ''.'')
           else (if isAbsolute p then ''/'' else []) @ s @ (if trailing then ''/'' else []))"

definition path_join :: "string list \<Rightarrow> string" where
  "path_join args =
     (let joined = join_slash (filter (\<lambda>a. a \<noteq> []) args)
      in if joined = [] then ''.'' else path_normalize joined)"

text \<open>
  \<open>path.resolve\<close> walks its arguments from the right, then the working directory, until
  an absolute one has been prepended.
\<close>

fun resolve_walk :: "string list \<Rightarrow> string \<Rightarrow> string \<times> bool" where
  "resolve_walk [] acc = (acc, False)"
| "resolve_walk (p # ps) acc =
     (if p = [] then resolve_walk ps acc
      else if isAbsolute p then (p @ ''/'' @ acc, True)
      else resolve_walk ps (p @ ''/'' @ acc))"

definition path_resolve :: "string \<Rightarrow> string list \<Rightarrow> string" where
  "path_resolve cwd args =
     (let (rp, absolute) = resolve_walk (rev args @ [cwd]) [];
          s = join_slash (normalizeString (\<not> absolute) [] (split_slash rp))
      in if absolute then ''/'' @ s else if s \<noteq> [] then s else ''.'')"

definition trailing_slashes :: "string \<Rightarrow> string" where
  "trailing_slashes p = takeWhile (\<lambda>c. c = CHR ''/'') (rev p)"

definition last_component :: "string \<Rightarrow> string" where
  "last_component p =
     rev (takeWhile (\<lambda>c. c \<noteq> CHR ''/'') (dropWhile (\<lambda>c. c = CHR ''/'') (rev p)))"

text \<open>
  \<open>path.extname\<close>: from the last dot of the last component, unless that dot opens the
  component or the component is \<open>..\<close>.
\<close>

definition extname :: "string \<Rightarrow> string" where
  "extname p =
     (let c = last_component p;
          after = takeWhile (\<lambda>x. x \<noteq> CHR ''.'') (rev c)
      in if length after = length c then []
         else if length after + 1 = length c then []
         else if c = ''..'' then []
         else drop (length c - length after - 1) c)"

text \<open>\<open>path.basename(p, suffix)\<close>.\<close>

definition basename :: "string \<Rightarrow> string \<Rightarrow> string" where
  "basename p s =
     (if s \<noteq> [] \<and> length s \<le> length p then
        (if s = p then []
         else
           let c = last_component p
           in if length c < length s \<and> suffix c s then c @ trailing_slashes p
              else if suffix s c \<and> c \<noteq> s then take (length c - length s) c
              else c)
      else last_component p)"

text \<open>
  \<open>encodeURIComponent\<close> on 8-bit code points, and the decimal print of a number (the
  first ten hexadecimal digits are the decimal ones).
\<close>

definition hex_digit :: "nat \<Rightarrow> char" where
  "hex_digit n = ''0123456789ABCDEF'' ! (n mod 16)"

definition percent :: "nat \<Rightarrow> string" where
  "percent n = [CHR ''%'', hex_digit (n div 16), hex_digit n]"

definition unreserved :: "char \<Rightarrow> bool" where
  "unreserved c =
     (let n = (of_char c :: nat)
      in (65 \<le> n \<and> n \<le> 90) \<or> (97 \<le> n \<and> n \<le> 122) \<or> (48 \<le> n \<and> n \<le> 57)
         \<or> c \<in> set ''-_.!~*'()'')"

definition encodeURIComponent :: "string \<Rightarrow> string" where
  "encodeURIComponent s =
     concat (map (\<lambda>c. let n = (of_char c :: nat)
                       in if unreserved c then [c]
                          else if n < 128 then percent n
                          else percent (192 + n div 64) @ percent (128 + n mod 64)) s)"

text \<open>
  \<open>decodeURIComponent\<close> on the same strings: an escape below \<open>0x80\<close> is its character,
  the escapes \<open>%C2\<close> and \<open>%C3\<close> with a continuation escape after them are a code point
  from \<open>0x80\<close> to \<open>0xFF\<close>. Every other escape is refused: it is malformed, or it
  stands for a code point that these strings do not hold.
\<close>

definition hex_value :: "char \<Rightarrow> nat option" where
  "hex_value c =
     (let n = (of_char c :: nat)
      in if 48 \<le> n \<and> n \<le> 57 then Some (n - 48)
         else if 65 \<le> n \<and> n \<le> 70 then Some (n - 55)
         else if 97 \<le> n \<and> n \<le> 102 then Some (n - 87)
         else None)"

definition hex_byte :: "char \<Rightarrow> char \<Rightarrow> nat option" where
  "hex_byte a b =
     (case hex_value a of
        None \<Rightarrow> None
      | Some x \<Rightarrow> (case hex_value b of None \<Rightarrow> None | Some y \<Rightarrow> Some (16 * x + y)))"

fun decodeURIComponent :: "string \<Rightarrow> string option" where
  "decodeURIComponent [] = Some []"
| "decodeURIComponent (c # cs) =
     (if c \<noteq> CHR ''%'' then map_option ((#) c) (decodeURIComponent cs)
      else
        (case cs of
           a # b # rest \<Rightarrow>
             (case hex_byte a b of
                None \<Rightarrow> None
              | Some n \<Rightarrow>
                  if n < 0x80 then map_option ((#) (char_of n)) (decodeURIComponent rest)
                  else if n = 0xC2 \<or> n = 0xC3 then
                    (case rest of
                       p # a2 # b2 # rest2 \<Rightarrow>
                         (case hex_byte a2 b2 of
                            None \<Rightarrow> None
                          | Some m \<Rightarrow>
                              if p = CHR ''%'' \<and> 0x80 \<le> m \<and> m < 0xC0 then
                                map_option ((#) (char_of ((n - 0xC0) * 64 + (m - 0x80))))
                                  (decodeURIComponent rest2)
                              else None)
                     | _ \<Rightarrow> None)
                  else None)
         | _ \<Rightarrow> None))"

fun decimal :: "nat \<Rightarrow> string" where
  "decimal n =
     (if n < 10 then [hex_digit n] else decimal (n div 10) @ [hex_digit (n mod 10)])"

declare decimal.simps [simp del]

section \<open>Data of the server\<close>

text \<open>
  The file system is a map from every existing path to the content stored there. An
  uploaded file is multer's record of it: the name the client gave and the path in the
  upload directory where its bytes were stored.
\<close>

type_synonym disk = "string \<rightharpoonup> buffer"

record upload =
  originalname :: string
  path :: string

text \<open>An element of \<open>outputs\<close>: \<open>{ err }\<close> or \<open>{ path, name }\<close>.\<close>

datatype item = Err string | Out string string

fun has_path :: "item \<Rightarrow> bool" where
  "has_path (Out p n) = (p \<noteq> [])"
| "has_path (Err m) = False"

fun has_err :: "item \<Rightarrow> bool" where
  "has_err (Err m) = (m \<noteq> [])"
| "has_err (Out p n) = False"

record entry =
  entry_id :: string
  entry_name :: string
  entry_count :: nat
  entry_target :: string
  entry_time :: nat

record server =
  disk :: disk
  history :: "entry list"

datatype response =
    JsonError nat string
  | JsonUrl string
  | SendText nat string
  | Download string string

text \<open>
  What the handler takes from outside: the third-party parsers and encoders (a parser may
  throw, \<open>Inl\<close> with the message), the
  identifier \<open>nanoid\<close> draws, the clock, the directory of the script and the working
  directory of the process.
\<close>

record env =
  pdfParse :: "buffer \<Rightarrow> string + unicode"
  extractRawText :: "buffer \<Rightarrow> string + unicode"
  fileTypeFromFile :: "buffer \<Rightarrow> string option"
  packerToBuffer :: "unicode list \<Rightarrow> buffer"
  zipBytes :: "(string \<times> buffer) list \<Rightarrow> buffer"
  nanoid :: string
  date_now :: nat
  dirname :: string
  cwd :: string

definition OUT_DIR :: "env \<Rightarrow> string" where
  "OUT_DIR e = path_join [dirname e, ''converted'']"

definition UPLOAD_DIR :: "env \<Rightarrow> string" where
  "UPLOAD_DIR e = path_join [dirname e, ''uploads'']"

section \<open>Upload filter and helpers\<close>

definition allowedExt :: "string list" where
  "allowedExt = [''.pdf'', ''.docx'', ''.txt'', ''.png'', ''.jpg'', ''.jpeg'', ''.bmp'', ''.tif'', ''.tiff'']"

definition isImageExt :: "string \<Rightarrow> bool" where
  "isImageExt ext = (ext \<in> set [''.png'', ''.jpg'', ''.jpeg'', ''.bmp'', ''.tif'', ''.tiff''])"

text \<open>\<open>fileFilter\<close>: multer keeps a file only when its lower-cased extension is allowed.\<close>

definition fileFilter :: "upload \<Rightarrow> bool" where
  "fileFilter f = (toLowerCase (extname (originalname f)) \<in> set allowedExt)"

definition unlink :: "disk \<Rightarrow> string \<Rightarrow> string + disk" where
  "unlink d p = (case d p of None \<Rightarrow> Inl ''ENOENT'' | Some c \<Rightarrow> Inr (d(p := None)))"

definition removeIfExists :: "disk \<Rightarrow> string \<Rightarrow> bool \<times> disk" where
  "removeIfExists d p = (case unlink d p of Inl x \<Rightarrow> (False, d) | Inr d' \<Rightarrow> (True, d'))"

definition rename :: "disk \<Rightarrow> string \<Rightarrow> string \<Rightarrow> string + disk" where
  "rename d src dst =
     (case d src of None \<Rightarrow> Inl ''ENOENT'' | Some c \<Rightarrow> Inr ((d(src := None))(dst \<mapsto> c)))"

definition readFile :: "disk \<Rightarrow> string \<Rightarrow> string + buffer" where
  "readFile d p = (case d p of None \<Rightarrow> Inl ''ENOENT'' | Some c \<Rightarrow> Inr c)"

definition toTxtFromPdf :: "env \<Rightarrow> disk \<Rightarrow> string \<Rightarrow> string + unicode" where
  "toTxtFromPdf e d filePath =
     (case readFile d filePath of Inl x \<Rightarrow> Inl x
      | Inr buf \<Rightarrow> (case pdfParse e buf of Inl x \<Rightarrow> Inl x | Inr text \<Rightarrow> Inr (trim text)))"

definition toTxtFromDocx :: "env \<Rightarrow> disk \<Rightarrow> string \<Rightarrow> string + unicode" where
  "toTxtFromDocx e d filePath =
     (case readFile d filePath of Inl x \<Rightarrow> Inl x
      | Inr buf \<Rightarrow> (case extractRawText e buf of Inl x \<Rightarrow> Inl x | Inr v \<Rightarrow> Inr (trim v)))"

definition txtToDocxBuffer :: "env \<Rightarrow> unicode \<Rightarrow> buffer" where
  "txtToDocxBuffer e text = packerToBuffer e (split_lines text)"

text \<open>
  \<open>isPdfFile\<close>: four bytes are read into a zeroed buffer of four; they spell \<open>%PDF\<close>
  exactly when they are 25 50 44 46. A file that cannot be opened is not a PDF.
\<close>

definition pdf_signature :: buffer where
  "pdf_signature = [0x25, 0x50, 0x44, 0x46]"

definition isPdfFile :: "disk \<Rightarrow> string \<Rightarrow> bool" where
  "isPdfFile d filePath =
     (case readFile d filePath of Inl x \<Rightarrow> False
      | Inr c \<Rightarrow> take 4 (c @ replicate 4 0) = pdf_signature)"

definition looksLikeText :: "disk \<Rightarrow> string \<Rightarrow> bool" where
  "looksLikeText d filePath =
     (case readFile d filePath of Inl x \<Rightarrow> False | Inr buf \<Rightarrow> 0 \<notin> set buf)"

definition detectMime :: "env \<Rightarrow> disk \<Rightarrow> string \<Rightarrow> string option" where
  "detectMime e d filePath =
     (case readFile d filePath of Inl x \<Rightarrow> None | Inr buf \<Rightarrow> fileTypeFromFile e buf)"

definition addHistory :: "entry \<Rightarrow> entry list \<Rightarrow> entry list" where
  "addHistory x h = (let h' = h @ [x] in drop (length h' - 100) h')"

section \<open>The conversion of one uploaded file\<close>

text \<open>
  The check on the detected MIME type of a \<open>.docx\<close> upload:
  \<open>m && m !== 'application/zip' && m !== '...wordprocessingml.document'\<close>.
\<close>

definition mime_rejected :: "string option \<Rightarrow> bool" where
  "mime_rejected m =
     (case m of None \<Rightarrow> False
      | Some t \<Rightarrow> t \<noteq> [] \<and> t \<noteq> ''application/zip''
          \<and> t \<noteq> ''application/vnd.openxmlformats-officedocument.wordprocessingml.document'')"

text \<open>
  Reading the source text. The branches for the targets \<open>txt\<close> and \<open>docx\<close> read it with
  the same statements, up to the target named in the last message (\<open>label\<close>).
  \<open>Continue\<close> is the \<open>continue\<close> of the loop; \<open>Text\<close> falls through to the encoding
  with the value of the variable \<open>text\<close>. A thrown exception is \<open>Inl\<close>.
\<close>

datatype extraction = Continue "item list" | Text "item list" unicode

definition source_text ::
  "env \<Rightarrow> disk \<Rightarrow> string \<Rightarrow> upload \<Rightarrow> string \<Rightarrow> item list \<Rightarrow> string + extraction" where
  "source_text e d label uploaded ext outputs =
     (if ext = ''.pdf'' then
        (if \<not> isPdfFile d (path uploaded) then
           Inr (Continue (outputs @ [Err (''Invalid PDF file: '' @ originalname uploaded)]))
         else
           (case toTxtFromPdf e d (path uploaded) of
              Inl x \<Rightarrow> Inl x
            | Inr text \<Rightarrow>
                if text = [] then
                  Inr (Continue (outputs @
                    [Err (''No text extracted (likely scanned PDF): '' @ originalname uploaded)]))
                else Inr (Text outputs text)))
      else if ext = ''.docx'' then
        (case toTxtFromDocx e d (path uploaded) of
           Inl x \<Rightarrow> Inl x
         | Inr text \<Rightarrow> Inr (Text outputs text))
      else if ext = ''.txt'' then
        (case readFile d (path uploaded) of
           Inl x \<Rightarrow> Inl x
         | Inr buf \<Rightarrow> Inr (Text outputs (utf8_decode buf)))
      else if isImageExt ext then
        Inr (Text (outputs @ [Err (''OCR not enabled for images: '' @ originalname uploaded)]) [])
      else
        Inr (Continue (outputs @
          [Err (''Unsupported source for '' @ label @ '': '' @ originalname uploaded)])))"

text \<open>
  The body of the loop over the uploaded files: the disk and \<open>outputs\<close> before, the disk
  and \<open>outputs\<close> after, or the exception that leaves the loop. An exception comes from a
  parser or from reading a file that does not exist; writing a file succeeds.
\<close>

definition convert_one ::
  "env \<Rightarrow> string \<Rightarrow> disk \<times> item list \<Rightarrow> upload \<Rightarrow> string + (disk \<times> item list)" where
  "convert_one e target st uploaded =
     (let d = fst st;
          outputs = snd st;
          ext = toLowerCase (extname (originalname uploaded));
          base = basename (originalname uploaded) ext
      in if ext = ''.txt'' \<and> \<not> looksLikeText d (path uploaded) then
           Inr (d, outputs @ [Err (''Not a text file: '' @ originalname uploaded)])
         else if ext = ''.docx'' \<and> mime_rejected (detectMime e d (path uploaded)) then
           Inr (d, outputs @ [Err (''Not a DOCX file: '' @ originalname uploaded)])
         else if target = ''txt'' then
           (case source_text e d ''TXT'' uploaded ext outputs of
              Inl x \<Rightarrow> Inl x
            | Inr (Continue outs) \<Rightarrow> Inr (d, outs)
            | Inr (Text outs text) \<Rightarrow>
                let outPath = path_join [OUT_DIR e, base @ ''.txt'']
                in Inr (d(outPath \<mapsto> utf8_encode text),
                        outs @ [Out outPath (base @ ''.txt'')]))
         else if target = ''docx'' then
           (case source_text e d ''DOCX'' uploaded ext outputs of
              Inl x \<Rightarrow> Inl x
            | Inr (Continue outs) \<Rightarrow> Inr (d, outs)
            | Inr (Text outs text) \<Rightarrow>
                let buffer = txtToDocxBuffer e text;
                    outPath = path_join [OUT_DIR e, base @ ''.docx'']
                in Inr (d(outPath \<mapsto> buffer), outs @ [Out outPath (base @ ''.docx'')]))
         else Inr (d, outputs @ [Err (''Unsupported target: '' @ target)]))"

text \<open>
  The loop returns the disk as the files converted so far left it, together with
  \<open>outputs\<close> or the exception that ended it.
\<close>

fun convert_all ::
  "env \<Rightarrow> string \<Rightarrow> disk \<times> item list \<Rightarrow> upload list \<Rightarrow> disk \<times> (string + item list)" where
  "convert_all e target st [] = (fst st, Inr (snd st))"
| "convert_all e target st (uploaded # rest) =
     (case convert_one e target st uploaded of
        Inl x \<Rightarrow> (fst st, Inl x)
      | Inr st' \<Rightarrow> convert_all e target st' rest)"

text \<open>
  The name of the output file of an upload: its base name, a dot and the target.
\<close>

definition out_name :: "string \<Rightarrow> upload \<Rightarrow> string" where
  "out_name target f =
     basename (originalname f) (toLowerCase (extname (originalname f))) @ CHR ''.'' # target"

text \<open>A recorded failure: an item with a message, which is not the fallback of the handler.\<close>

fun failure :: "item \<Rightarrow> bool" where
  "failure (Err m) = (m \<noteq> [] \<and> m \<noteq> ''Conversion failed'')"
| "failure (Out p n) = False"

section \<open>Packaging and the handler of \<open>/api/convert\<close>\<close>

fun item_path :: "item \<Rightarrow> string" where
  "item_path (Out p n) = p"
| "item_path (Err m) = []"

fun item_name :: "item \<Rightarrow> string" where
  "item_name (Out p n) = n"
| "item_name (Err m) = []"

text \<open>\<open>outputs.find(o => o.err)?.err || 'Conversion failed'\<close>.\<close>

definition firstErr :: "item list \<Rightarrow> string" where
  "firstErr outputs =
     (case filter has_err outputs of Err m # _ \<Rightarrow> m | _ \<Rightarrow> ''Conversion failed'')"

text \<open>The entries the archive receives: each item's name with the bytes read at its path.\<close>

fun archive_entries :: "disk \<Rightarrow> item list \<Rightarrow> string + (string \<times> buffer) list" where
  "archive_entries d [] = Inr []"
| "archive_entries d (i # rest) =
     (case readFile d (item_path i) of
        Inl x \<Rightarrow> Inl x
      | Inr c \<Rightarrow>
          (case archive_entries d rest of
             Inl x \<Rightarrow> Inl x
           | Inr es \<Rightarrow> Inr ((item_name i, c) # es)))"

definition remove_all :: "disk \<Rightarrow> string list \<Rightarrow> disk" where
  "remove_all d ps = fold (\<lambda>p d'. snd (removeIfExists d' p)) ps d"

text \<open>
  The statements of the \<open>try\<close> block after the loop. The result is the state reached and
  the response sent, or the exception thrown.
\<close>

definition package ::
  "env \<Rightarrow> string \<Rightarrow> item list \<Rightarrow> server \<Rightarrow> server \<times> (string + response)" where
  "package e target outputs s =
     (let okItems = filter has_path outputs
      in case okItems of
           [] \<Rightarrow> (s, Inr (JsonError 422 (firstErr outputs)))
         | [one] \<Rightarrow>
             (let downloadId = nanoid e;
                  mappedPath = path_join [OUT_DIR e, downloadId @ ''-'' @ item_name one]
              in case rename (disk s) (item_path one) mappedPath of
                   Inl x \<Rightarrow> (s, Inl x)
                 | Inr d' \<Rightarrow>
                     (\<lparr>disk = d',
                       history = addHistory
                         \<lparr>entry_id = downloadId, entry_name = item_name one, entry_count = 1,
                          entry_target = target, entry_time = date_now e\<rparr> (history s)\<rparr>,
                      Inr (JsonUrl (''/download/'' @ downloadId @ ''/''
                                    @ encodeURIComponent (item_name one)))))
         | _ \<Rightarrow>
             (let zipName = ''converted-'' @ decimal (date_now e) @ ''.zip'';
                  zipTemp = path_join [OUT_DIR e, zipName]
              in case archive_entries (disk s) okItems of
                   Inl x \<Rightarrow> (s, Inl x)
                 | Inr es \<Rightarrow>
                     (let d1 = (disk s)(zipTemp \<mapsto> zipBytes e es);
                          d2 = remove_all d1 (map item_path okItems);
                          downloadId = nanoid e;
                          mappedPath = path_join [OUT_DIR e, downloadId @ ''-'' @ zipName]
                      in case rename d2 zipTemp mappedPath of
                           Inl x \<Rightarrow> (s\<lparr>disk := d2\<rparr>, Inl x)
                         | Inr d3 \<Rightarrow>
                             (\<lparr>disk = d3,
                               history = addHistory
                                 \<lparr>entry_id = downloadId, entry_name = zipName,
                                  entry_count = length okItems, entry_target = target,
                                  entry_time = date_now e\<rparr> (history s)\<rparr>,
                              Inr (JsonUrl (''/download/'' @ downloadId @ ''/''
                                            @ encodeURIComponent zipName))))))"

definition try_block ::
  "env \<Rightarrow> string \<Rightarrow> upload list \<Rightarrow> server \<Rightarrow> server \<times> (string + response)" where
  "try_block e target files s =
     (case convert_all e target (disk s, []) files of
        (d, Inl x) \<Rightarrow> (s\<lparr>disk := d\<rparr>, Inl x)
      | (d, Inr outputs) \<Rightarrow> package e target outputs (s\<lparr>disk := d\<rparr>))"

text \<open>The \<open>finally\<close> block: every uploaded file with a path is unlinked, errors ignored.\<close>

definition cleanup_uploads :: "upload list \<Rightarrow> disk \<Rightarrow> disk" where
  "cleanup_uploads files d = remove_all d (map path (filter (\<lambda>f. path f \<noteq> []) files))"

text \<open>
  \<open>app.post("/api/convert")\<close>: the target of the request body (absent or empty, it is
  \<open>txt\<close>), the files multer stored, the state of the server; the response and the state
  after the handler has finished.
\<close>

definition request_target :: "string option \<Rightarrow> string" where
  "request_target body_target =
     toLowerCase (case body_target of None \<Rightarrow> ''txt'' | Some t \<Rightarrow> if t = [] then ''txt'' else t)"

definition api_convert ::
  "env \<Rightarrow> string option \<Rightarrow> upload list \<Rightarrow> server \<Rightarrow> response \<times> server" where
  "api_convert e body_target files s =
     (let target = request_target body_target
      in if files = [] then (JsonError 400 ''No file uploaded'', s)
         else
           (case try_block e target files s of
              (s', r) \<Rightarrow>
                (case r of Inl x \<Rightarrow> JsonError 500 ''Conversion failed'' | Inr resp \<Rightarrow> resp,
                 s'\<lparr>disk := cleanup_uploads files (disk s')\<rparr>)))"

section \<open>The handler of \<open>/download/:id/:name\<close>\<close>

definition download :: "env \<Rightarrow> disk \<Rightarrow> string \<Rightarrow> string \<Rightarrow> response" where
  "download e d ident name =
     (let safeBase = path_resolve (cwd e) [OUT_DIR e];
          candidate = path_resolve (cwd e) [OUT_DIR e, ident @ ''-'' @ name]
      in if \<not> prefix (safeBase @ ''/'') candidate \<and> candidate \<noteq> safeBase then
           SendText 400 ''Bad path''
         else if d candidate = None then SendText 404 ''Not found''
         else Download candidate name)"

text \<open>
  How Express brings a \<open>GET\<close> request to that handler. The route \<open>/download/:id/:name\<close>
  matches a path made of the segment \<open>download\<close>, compared without regard to case, and
  two more segments that are not empty, with at most one slash after them. Each parameter
  is decoded with \<open>decodeURIComponent\<close>; when that fails the error handler at the end of
  the script answers with status 400 and the message of the error. A path that does not
  match is not for this handler. The middleware in front of the route is taken to pass
  the request on.
\<close>

definition download_route :: "string \<Rightarrow> (string \<times> string) option" where
  "download_route url =
     (case split_slash url of
        [root, seg, a, b] \<Rightarrow>
          if root = [] \<and> toLowerCase seg = ''download'' \<and> a \<noteq> [] \<and> b \<noteq> [] then Some (a, b)
          else None
      | [root, seg, a, b, t] \<Rightarrow>
          if root = [] \<and> toLowerCase seg = ''download'' \<and> a \<noteq> [] \<and> b \<noteq> [] \<and> t = []
          then Some (a, b)
          else None
      | _ \<Rightarrow> None)"

definition decode_param :: "string \<Rightarrow> string + string" where
  "decode_param v =
     (case decodeURIComponent v of
        None \<Rightarrow> Inl (''Failed to decode param '' @ [CHR 0x27] @ v @ [CHR 0x27])
      | Some x \<Rightarrow> Inr x)"

definition get_download :: "env \<Rightarrow> disk \<Rightarrow> string \<Rightarrow> response option" where
  "get_download e d url =
     (case download_route url of
        None \<Rightarrow> None
      | Some (a, b) \<Rightarrow>
          (case decode_param a of
             Inl x \<Rightarrow> Some (JsonError 400 x)
           | Inr ident \<Rightarrow>
               (case decode_param b of
                  Inl x \<Rightarrow> Some (JsonError 400 x)
                | Inr name \<Rightarrow> Some (download e d ident name))))"

section \<open>Containment of a path in a directory\<close>

text \<open>
  A path lies in a directory when the segments of the directory open the segments of the
  path.
\<close>

definition path_segments :: "string \<Rightarrow> string list" where
  "path_segments p = filter (\<lambda>s. s \<noteq> []) (split_slash p)"

definition inside_dir :: "string \<Rightarrow> string \<Rightarrow> bool" where
  "inside_dir dir p = prefix (path_segments dir) (path_segments p)"

text \<open>
  A segment that normalisation keeps as it is: not empty, not \<open>.\<close> or \<open>..\<close>, without a
  separator.
\<close>

definition normal_segment :: "string \<Rightarrow> bool" where
  "normal_segment s = (s \<noteq> [] \<and> s \<noteq> ''.'' \<and> s \<noteq> ''..'' \<and> CHR ''/'' \<notin> set s)"


section \<open>An example installation\<close>

text \<open>
  Concrete parsers, a disk and uploads on which the theorems below are instantiated.
\<close>

definition demo_env :: env where
  "demo_env =
     \<lparr>pdfParse = (\<lambda>b. if length b \<le> 4 then Inr [0x20, 0x20] else Inr [0x48, 0x65, 0x6C, 0x6C, 0x6F]),
      extractRawText = (\<lambda>b. if take 2 b = [0x50, 0x4B] then Inr [0x54, 0x69, 0x74, 0x6C, 0x65]
                              else Inl ''not a zip file''),
      fileTypeFromFile = (\<lambda>b. if take 2 b = [0x50, 0x4B] then Some ''application/zip''
                                else if take 4 b = pdf_signature then Some ''application/pdf''
                                else None),
      packerToBuffer = (\<lambda>ls. concat (map utf8_encode ls)),
      zipBytes = (\<lambda>es. concat (map snd es)),
      nanoid = ''V1StGXR8_Z'',
      date_now = 1700,
      dirname = ''/srv/app'',
      cwd = ''/srv/app''\<rparr>"

definition demo_disk :: disk where
  "demo_disk = map_of
     [(''/srv/app/uploads/1-a.txt'', [0x68, 0x69]),
      (''/srv/app/uploads/2-b.txt'', [0x68, 0x00]),
      (''/srv/app/uploads/3-c.pdf'', [0x25, 0x50, 0x44, 0x46]),
      (''/srv/app/uploads/4-d.pdf'', [0x68, 0x69]),
      (''/srv/app/uploads/5-e.docx'', [0x25, 0x50, 0x44, 0x46]),
      (''/srv/app/uploads/6-f.docx'', [0x68, 0x69]),
      (''/srv/app/uploads/7-g.png'', [0x89, 0x50]),
      (''/srv/app/uploads/8-h.pdf'', [0x25, 0x50, 0x44, 0x46, 0x2D]),
      (''/srv/app/uploads/9-i.txt'', [0xFF, 0x41]),
      (''/srv/app/uploads/10-j.txt'', [0x20, 0xC3, 0xA9, 0x0A]),
      (''/srv/app/uploads/11-k.docx'', [0x50, 0x4B, 0x03, 0x04]),
      (''/srv/app/uploads/12-l.txt'', [0x68, 0x69]),
      (''/srv/app/etc/passwd'', [0x72])]"

definition notes_txt :: upload where
  "notes_txt = \<lparr>originalname = ''notes.txt'', path = ''/srv/app/uploads/1-a.txt''\<rparr>"

definition binary_txt :: upload where
  "binary_txt = \<lparr>originalname = ''binary.txt'', path = ''/srv/app/uploads/2-b.txt''\<rparr>"

definition scanned_pdf :: upload where
  "scanned_pdf = \<lparr>originalname = ''scan.pdf'', path = ''/srv/app/uploads/3-c.pdf''\<rparr>"

definition fake_pdf :: upload where
  "fake_pdf = \<lparr>originalname = ''fake.pdf'', path = ''/srv/app/uploads/4-d.pdf''\<rparr>"

definition pdf_as_docx :: upload where
  "pdf_as_docx = \<lparr>originalname = ''report.docx'', path = ''/srv/app/uploads/5-e.docx''\<rparr>"

definition text_as_docx :: upload where
  "text_as_docx = \<lparr>originalname = ''plain.docx'', path = ''/srv/app/uploads/6-f.docx''\<rparr>"

definition picture_png :: upload where
  "picture_png = \<lparr>originalname = ''photo.png'', path = ''/srv/app/uploads/7-g.png''\<rparr>"

definition notes_pdf :: upload where
  "notes_pdf = \<lparr>originalname = ''notes.pdf'', path = ''/srv/app/uploads/8-h.pdf''\<rparr>"

definition legacy_txt :: upload where
  "legacy_txt = \<lparr>originalname = ''legacy.txt'', path = ''/srv/app/uploads/9-i.txt''\<rparr>"

definition accents_txt :: upload where
  "accents_txt = \<lparr>originalname = ''accents.txt'', path = ''/srv/app/uploads/10-j.txt''\<rparr>"

definition letter_docx :: upload where
  "letter_docx = \<lparr>originalname = ''letter.docx'', path = ''/srv/app/uploads/11-k.docx''\<rparr>"

definition spaced_txt :: upload where
  "spaced_txt = \<lparr>originalname = ''my notes 100%.txt'', path = ''/srv/app/uploads/12-l.txt''\<rparr>"

section \<open>Properties of the UTF-8 codec\<close>

lemma utf8_encode_Nil [simp]: "utf8_encode [] = []"
  by (simp add: utf8_encode_def)

lemma base64_div: "c < 64 \<Longrightarrow> (a * 64 + c) div 64 = (a::nat)" by simp
lemma base64_mod: "c < 64 \<Longrightarrow> (a * 64 + c) mod 64 = (c::nat)" by simp

lemma utf8_encode_two:
  assumes "0xC2 \<le> n" "n \<le> 0xDF" "0x80 \<le> m" "m \<le> 0xBF"
  shows "utf8_encode_cp ((n - 0xC0) * 64 + (m - 0x80)) = [of_nat n, of_nat m]"
proof -
  define a where "a = n - 0xC0"
  define c where "c = m - 0x80"
  have n: "n = 0xC0 + a" and m: "m = 0x80 + c" and a: "2 \<le> a" "a < 32" and c: "c < 64"
    using assms by (simp_all add: a_def c_def)
  have d: "(a * 64 + c) div 64 = a" "(a * 64 + c) mod 64 = c" using c by simp_all
  have r: "\<not> a * 64 + c < 0x80" "a * 64 + c < 0x800" using a c by simp_all
  show ?thesis
    unfolding a_def [symmetric] c_def [symmetric] utf8_encode_cp_def
    using r d by (simp add: n m)
qed

lemma utf8_encode_three:
  assumes "0xE0 \<le> n" "n \<le> 0xEF" "(if n = 0xE0 then 0xA0 else 0x80) \<le> m1"
    "m1 \<le> (if n = 0xED then 0x9F else 0xBF)" "0x80 \<le> m2" "m2 \<le> 0xBF"
  shows "utf8_encode_cp ((n - 0xE0) * 4096 + (m1 - 0x80) * 64 + (m2 - 0x80))
           = [of_nat n, of_nat m1, of_nat m2]"
proof -
  define a where "a = n - 0xE0"
  define b where "b = m1 - 0x80"
  define c where "c = m2 - 0x80"
  have n: "n = 0xE0 + a" and m1: "m1 = 0x80 + b" and m2: "m2 = 0x80 + c"
    and a: "a < 16" and b: "b < 64" and c: "c < 64"
    and lo: "a = 0 \<longrightarrow> 32 \<le> b" and hi: "a = 13 \<longrightarrow> b < 32"
    using assms by (auto simp: a_def b_def c_def split: if_splits)
  let ?cp = "a * 4096 + b * 64 + c"
  have e: "?cp = (a * 64 + b) * 64 + c" by simp
  have d1: "?cp mod 64 = c" unfolding e by (rule base64_mod [OF c])
  have d2: "?cp div 64 = a * 64 + b" unfolding e by (rule base64_div [OF c])
  have d3: "?cp div 64 mod 64 = b" unfolding d2 by (rule base64_mod [OF b])
  have "?cp div 4096 = ?cp div 64 div 64" by (simp add: div_mult2_eq)
  then have d4: "?cp div 4096 = a" unfolding d2 using base64_div [OF b] by simp
  note d = d1 d3 d4
  have r: "(?cp < 0x80) = False" "(?cp < 0x800) = False"
    "(0xD800 \<le> ?cp \<and> ?cp \<le> 0xDFFF) = False" "?cp < 0x10000"
    using a b c lo hi by (cases "a = 0"; cases "a = 13"; simp; arith)+
  show ?thesis
    unfolding a_def [symmetric] b_def [symmetric] c_def [symmetric] utf8_encode_cp_def
    by (simp add: n m1 m2 r d)
qed


lemma utf8_encode_four:
  assumes "0xF0 \<le> n" "n \<le> 0xF4" "(if n = 0xF0 then 0x90 else 0x80) \<le> m1"
    "m1 \<le> (if n = 0xF4 then 0x8F else 0xBF)" "0x80 \<le> m2" "m2 \<le> 0xBF"
    "0x80 \<le> m3" "m3 \<le> 0xBF"
  shows "utf8_encode_cp ((n - 0xF0) * 262144 + (m1 - 0x80) * 4096 + (m2 - 0x80) * 64 + (m3 - 0x80))
           = [of_nat n, of_nat m1, of_nat m2, of_nat m3]"
proof -
  define a where "a = n - 0xF0"
  define b where "b = m1 - 0x80"
  define c where "c = m2 - 0x80"
  define f where "f = m3 - 0x80"
  have n: "n = 0xF0 + a" and m1: "m1 = 0x80 + b" and m2: "m2 = 0x80 + c" and m3: "m3 = 0x80 + f"
    and a: "a < 5" and b: "b < 64" and c: "c < 64" and f: "f < 64"
    and lo: "a = 0 \<longrightarrow> 16 \<le> b" and hi: "a = 4 \<longrightarrow> b < 16"
    using assms by (auto simp: a_def b_def c_def f_def split: if_splits)
  let ?cp = "a * 262144 + b * 4096 + c * 64 + f"
  have e: "?cp = ((a * 64 + b) * 64 + c) * 64 + f" by simp
  have d1: "?cp mod 64 = f" unfolding e by (rule base64_mod [OF f])
  have d2: "?cp div 64 = (a * 64 + b) * 64 + c" unfolding e by (rule base64_div [OF f])
  have d3: "?cp div 64 mod 64 = c" unfolding d2 by (rule base64_mod [OF c])
  have "?cp div 4096 = ?cp div 64 div 64" by (simp add: div_mult2_eq)
  then have d4: "?cp div 4096 = a * 64 + b" unfolding d2 using base64_div [OF c] by simp
  have d5: "?cp div 4096 mod 64 = b" unfolding d4 by (rule base64_mod [OF b])
  have "?cp div 262144 = ?cp div 4096 div 64" by (simp add: div_mult2_eq)
  then have d6: "?cp div 262144 = a" unfolding d4 using base64_div [OF b] by simp
  have r: "(?cp < 0x80) = False" "(?cp < 0x800) = False"
    "(0xD800 \<le> ?cp \<and> ?cp \<le> 0xDFFF) = False" "(?cp < 0x10000) = False" "?cp < 0x110000"
    using a b c f lo hi by (cases "a = 0"; cases "a = 4"; simp; arith)+
  show ?thesis
    unfolding a_def [symmetric] b_def [symmetric] c_def [symmetric] f_def [symmetric]
      utf8_encode_cp_def
    by (simp add: n m1 m2 m3 r d1 d3 d5 d6)
qed


lemmas utf8_scan_unfold = utf8_scan.simps(2) [unfolded Let_def]

lemma utf8_encode_one: "unat (b :: byte) < 0x80 \<Longrightarrow> utf8_encode_cp (unat b) = [b]"
  by (simp add: utf8_encode_cp_def)

lemma utf8_scan_step:
  assumes "None \<notin> set (utf8_scan (b # bs))"
  shows "\<exists>cp rest. utf8_scan (b # bs) = Some cp # utf8_scan rest
           \<and> utf8_encode_cp cp @ rest = b # bs \<and> length rest \<le> length bs"
proof -
  let ?n = "unat b"
  consider (one) "?n < 0x80" | (two) "0xC2 \<le> ?n" "?n \<le> 0xDF" | (three) "0xE0 \<le> ?n" "?n \<le> 0xEF"
    | (four) "0xF0 \<le> ?n" "?n \<le> 0xF4"
    | (bad) "\<not> ?n < 0x80" "\<not> (0xC2 \<le> ?n \<and> ?n \<le> 0xDF)" "\<not> (0xE0 \<le> ?n \<and> ?n \<le> 0xEF)"
        "\<not> (0xF0 \<le> ?n \<and> ?n \<le> 0xF4)"
    by linarith
  then show ?thesis
  proof cases
    case one
    then show ?thesis by (simp add: utf8_scan_unfold utf8_encode_one)
  next
    case two
    show ?thesis
    proof (cases bs)
      case Nil
      then show ?thesis using assms two by (simp add: utf8_scan_unfold)
    next
      case (Cons b1 r1)
      then have r: "in_range 0x80 0xBF b1"
        using assms two by (auto simp add: utf8_scan_unfold [of b] split: if_splits)
      then show ?thesis
        using two Cons utf8_encode_two [of ?n "unat b1"]
        by (simp add: utf8_scan_unfold [of b] in_range_def)
    qed
  next
    case three
    show ?thesis
    proof (cases bs)
      case Nil
      then show ?thesis using assms three by (simp add: utf8_scan_unfold)
    next
      case b1: (Cons b1 r1)
      then have r1: "in_range (if ?n = 0xE0 then 0xA0 else 0x80) (if ?n = 0xED then 0x9F else 0xBF) b1"
        using assms three by (auto simp add: utf8_scan_unfold [of b] split: if_splits)
      show ?thesis
      proof (cases r1)
        case Nil
        then show ?thesis using assms three b1 r1 by (simp add: utf8_scan_unfold [of b])
      next
        case (Cons b2 r2)
        then have r2: "in_range 0x80 0xBF b2"
          using assms three b1 r1 by (auto simp add: utf8_scan_unfold [of b] split: if_splits)
        have "utf8_encode_cp ((?n - 0xE0) * 4096 + (unat b1 - 0x80) * 64 + (unat b2 - 0x80))
                = [b, b1, b2]"
          using utf8_encode_three [of ?n "unat b1" "unat b2"] three r1 r2 by (simp add: in_range_def)
        then show ?thesis
          using three b1 Cons r1 r2 by (simp add: utf8_scan_unfold [of b])
      qed
    qed
  next
    case four
    show ?thesis
    proof (cases bs)
      case Nil
      then show ?thesis using assms four by (simp add: utf8_scan_unfold)
    next
      case b1: (Cons b1 r1)
      then have r1: "in_range (if ?n = 0xF0 then 0x90 else 0x80) (if ?n = 0xF4 then 0x8F else 0xBF) b1"
        using assms four by (auto simp add: utf8_scan_unfold [of b] split: if_splits)
      show ?thesis
      proof (cases r1)
        case Nil
        then show ?thesis using assms four b1 r1 by (simp add: utf8_scan_unfold [of b])
      next
        case b2: (Cons b2 r2)
        then have r2: "in_range 0x80 0xBF b2"
          using assms four b1 r1 by (auto simp add: utf8_scan_unfold [of b] split: if_splits)
        show ?thesis
        proof (cases r2)
          case Nil
          then show ?thesis using assms four b1 b2 r1 r2 by (simp add: utf8_scan_unfold [of b])
        next
          case (Cons b3 r3)
          then have r3: "in_range 0x80 0xBF b3"
            using assms four b1 b2 r1 r2 by (auto simp add: utf8_scan_unfold [of b] split: if_splits)
          have "utf8_encode_cp ((?n - 0xF0) * 262144 + (unat b1 - 0x80) * 4096
                   + (unat b2 - 0x80) * 64 + (unat b3 - 0x80)) = [b, b1, b2, b3]"
            using utf8_encode_four [of ?n "unat b1" "unat b2" "unat b3"] four r1 r2 r3
            by (simp add: in_range_def)
          then show ?thesis
            using four b1 b2 Cons r1 r2 r3 by (simp add: utf8_scan_unfold [of b])
        qed
      qed
    qed
  next
    case bad
    show ?thesis using assms by (simp add: utf8_scan_unfold [of b] bad)
  qed
qed

lemma utf8_round_trip:
  "None \<notin> set (utf8_scan bs) \<Longrightarrow> utf8_encode (utf8_decode bs) = bs"
proof (induction "length bs" arbitrary: bs rule: less_induct)
  case less
  show ?case
  proof (cases bs)
    case Nil
    then show ?thesis by (simp add: utf8_encode_def utf8_decode_def)
  next
    case (Cons b r)
    then obtain cp rest where s: "utf8_scan bs = Some cp # utf8_scan rest"
      "utf8_encode_cp cp @ rest = bs" "length rest < length bs"
      using utf8_scan_step [of b r] less.prems by auto
    then have "utf8_encode (utf8_decode rest) = rest"
      using less.hyps [of rest] less.prems by simp
    then show ?thesis using s by (simp add: utf8_encode_def utf8_decode_def)
  qed
qed

lemma unat_byte: "n < 256 \<Longrightarrow> unat (word_of_nat n :: byte) = n"
  by (simp add: unat_of_nat)

lemma base64_digits:
  "(n::nat) = (n div 64) * 64 + n mod 64"
  "n = (n div 4096) * 4096 + (n div 64 mod 64) * 64 + n mod 64"
  "n = (n div 262144) * 262144 + (n div 4096 mod 64) * 4096 + (n div 64 mod 64) * 64 + n mod 64"
proof -
  show 1: "n = (n div 64) * 64 + n mod 64" by simp
  have 2: "n div 64 = (n div 4096) * 64 + n div 64 mod 64"
    using div_mult2_eq [of n 64 64] by simp
  have 3: "n div 4096 = (n div 262144) * 64 + n div 4096 mod 64"
    using div_mult2_eq [of n 4096 64] by simp
  show "n = (n div 4096) * 4096 + (n div 64 mod 64) * 64 + n mod 64"
    using 1 2 by linarith
  show "n = (n div 262144) * 262144 + (n div 4096 mod 64) * 4096 + (n div 64 mod 64) * 64 + n mod 64"
    using 1 2 3 by linarith
qed


lemma utf8_scan_one:
  assumes "cp < 0x80"
  shows "utf8_scan (utf8_encode_cp cp @ rest) = Some cp # utf8_scan rest"
proof -
  define A :: byte where "A = word_of_nat cp"
  have a: "unat A = cp" using assms unfolding A_def by (simp add: unat_byte)
  have e: "utf8_encode_cp cp = [A]" using assms by (simp add: utf8_encode_cp_def A_def)
  show ?thesis unfolding e using assms by (simp add: utf8_scan_unfold [of A] a)
qed

lemma utf8_scan_two:
  assumes "\<not> cp < 0x80" "cp < 0x800"
  shows "utf8_scan (utf8_encode_cp cp @ rest) = Some cp # utf8_scan rest"
proof -
  define a where "a = cp div 64"
  define b where "b = cp mod 64"
  define A :: byte where "A = word_of_nat (0xC0 + a)"
  define B :: byte where "B = word_of_nat (0x80 + b)"
  have cp: "cp = a * 64 + b" and bl: "b < 64" unfolding a_def b_def by simp_all
  have al: "2 \<le> a" "a \<le> 31" using assms cp bl by linarith+
  have ua: "unat A = 0xC0 + a" unfolding A_def using al by (intro unat_byte) simp
  have ub: "unat B = 0x80 + b" unfolding B_def using bl by (intro unat_byte) simp
  have e: "utf8_encode_cp cp = [A, B]"
    using assms by (simp add: utf8_encode_cp_def A_def B_def a_def b_def)
  show ?thesis unfolding e using al bl
    by (simp add: utf8_scan_unfold [of A] ua ub in_range_def cp)
qed

lemma utf8_scan_replaced: "utf8_scan ([0xEF, 0xBF, 0xBD] @ rest) = Some 0xFFFD # utf8_scan rest"
  by (simp add: utf8_scan_unfold in_range_def)

lemma utf8_scan_three:
  assumes "\<not> cp < 0x800" "cp < 0xD800 \<or> 0xDFFF < cp" "cp < 0x10000"
  shows "utf8_scan (utf8_encode_cp cp @ rest) = Some cp # utf8_scan rest"
proof -
  define a where "a = cp div 4096"
  define b where "b = cp div 64 mod 64"
  define c where "c = cp mod 64"
  define A :: byte where "A = word_of_nat (0xE0 + a)"
  define B :: byte where "B = word_of_nat (0x80 + b)"
  define C :: byte where "C = word_of_nat (0x80 + c)"
  have cp: "cp = a * 4096 + b * 64 + c" and bl: "b < 64" and cl: "c < 64"
    unfolding a_def b_def c_def using base64_digits(2) [of cp] by simp_all
  have al: "a \<le> 15" "a = 0 \<longrightarrow> 32 \<le> b" "a = 13 \<longrightarrow> b \<le> 31"
    using assms cp bl cl by linarith+
  have ua: "unat A = 0xE0 + a" unfolding A_def using al by (intro unat_byte) simp
  have ub: "unat B = 0x80 + b" unfolding B_def using bl by (intro unat_byte) simp
  have uc: "unat C = 0x80 + c" unfolding C_def using cl by (intro unat_byte) simp
  have ns: "(0xD800 \<le> cp \<and> cp \<le> 0xDFFF) = False" using assms(2) by auto
  have c1: "(cp < 0x80) = False" using assms(1) by simp
  have e: "utf8_encode_cp cp = [A, B, C]"
    unfolding utf8_encode_cp_def A_def B_def C_def a_def b_def c_def
    using assms(1,3) by (simp only: ns c1 if_False if_True)
  show ?thesis unfolding e using al bl cl
    by (simp add: utf8_scan_unfold [of A] ua ub uc in_range_def cp)
qed


lemma utf8_scan_four:
  assumes "\<not> cp < 0x10000" "cp < 0x110000"
  shows "utf8_scan (utf8_encode_cp cp @ rest) = Some cp # utf8_scan rest"
proof -
  define a where "a = cp div 262144"
  define b where "b = cp div 4096 mod 64"
  define c where "c = cp div 64 mod 64"
  define f where "f = cp mod 64"
  define A :: byte where "A = word_of_nat (0xF0 + a)"
  define B :: byte where "B = word_of_nat (0x80 + b)"
  define C :: byte where "C = word_of_nat (0x80 + c)"
  define F :: byte where "F = word_of_nat (0x80 + f)"
  have cp: "cp = a * 262144 + b * 4096 + c * 64 + f" and bl: "b < 64" and cl: "c < 64"
    and fl: "f < 64"
    unfolding a_def b_def c_def f_def using base64_digits(3) [of cp] by simp_all
  have al: "a \<le> 4" "a = 0 \<longrightarrow> 16 \<le> b" "a = 4 \<longrightarrow> b \<le> 15"
    using assms cp bl cl fl by linarith+
  have ua: "unat A = 0xF0 + a" unfolding A_def using al by (intro unat_byte) simp
  have ub: "unat B = 0x80 + b" unfolding B_def using bl by (intro unat_byte) simp
  have uc: "unat C = 0x80 + c" unfolding C_def using cl by (intro unat_byte) simp
  have uf: "unat F = 0x80 + f" unfolding F_def using fl by (intro unat_byte) simp
  have ns: "(0xD800 \<le> cp \<and> cp \<le> 0xDFFF) = False" "(cp < 0x80) = False" "(cp < 0x800) = False"
    "(cp < 0x10000) = False"
    using assms(1) by auto
  have e: "utf8_encode_cp cp = [A, B, C, F]"
    unfolding utf8_encode_cp_def A_def B_def C_def F_def a_def b_def c_def f_def
    using assms(2) by (simp only: ns if_False if_True)
  show ?thesis unfolding e using al bl cl fl
    by (simp add: utf8_scan_unfold [of A] ua ub uc uf in_range_def cp)
qed

lemma utf8_scan_encoded:
  "\<exists>v. utf8_scan (utf8_encode_cp cp @ rest) = Some v # utf8_scan rest"
proof -
  consider (one) "cp < 0x80" | (two) "\<not> cp < 0x80" "cp < 0x800"
    | (surrogate) "0xD800 \<le> cp" "cp \<le> 0xDFFF"
    | (three) "\<not> cp < 0x800" "cp < 0xD800 \<or> 0xDFFF < cp" "cp < 0x10000"
    | (four) "\<not> cp < 0x10000" "cp < 0x110000"
    | (beyond) "\<not> cp < 0x110000"
    by linarith
  then show ?thesis
  proof cases
    case one
    then show ?thesis using utf8_scan_one by blast
  next
    case two
    then show ?thesis using utf8_scan_two by blast
  next
    case surrogate
    then have "utf8_encode_cp cp = [0xEF, 0xBF, 0xBD]" by (simp add: utf8_encode_cp_def)
    then show ?thesis using utf8_scan_replaced by simp
  next
    case three
    then show ?thesis using utf8_scan_three by blast
  next
    case four
    then show ?thesis using utf8_scan_four by blast
  next
    case beyond
    then have "utf8_encode_cp cp = [0xEF, 0xBF, 0xBD]" by (simp add: utf8_encode_cp_def)
    then show ?thesis using utf8_scan_replaced by simp
  qed
qed

lemma utf8_encode_well_formed: "None \<notin> set (utf8_scan (utf8_encode t))"
proof (induction t)
  case Nil
  show ?case by simp
next
  case (Cons cp t)
  obtain v where "utf8_scan (utf8_encode_cp cp @ utf8_encode t) = Some v # utf8_scan (utf8_encode t)"
    using utf8_scan_encoded by blast
  then show ?case using Cons by (simp add: utf8_encode_def)
qed

lemma utf8_changed: "None \<in> set (utf8_scan c) \<Longrightarrow> utf8_encode (utf8_decode c) \<noteq> c"
  using utf8_encode_well_formed [of "utf8_decode c"] by auto

section \<open>Properties of the path functions\<close>

lemma takeWhile_neq_append:
  "a \<notin> set xs \<Longrightarrow> takeWhile (\<lambda>x. x \<noteq> a) (xs @ ys) = xs @ takeWhile (\<lambda>x. x \<noteq> a) ys"
  by (induction xs) auto

lemma last_component_suffix:
  assumes "r \<noteq> []" "CHR ''/'' \<notin> set r"
  shows "last_component (q @ CHR ''.'' # r) =
           rev (takeWhile (\<lambda>c. c \<noteq> CHR ''/'') (rev q)) @ CHR ''.'' # r"
proof -
  have "rev r \<noteq> []" using assms by simp
  then obtain x xs where rr: "rev r = x # xs" by (cases "rev r") auto
  have "x \<in> set r" using rr by (metis list.set_intros(1) set_rev)
  then have x: "x \<noteq> CHR ''/''" using assms by auto
  have d: "dropWhile (\<lambda>c. c = CHR ''/'') (rev (q @ CHR ''.'' # r)) = rev r @ CHR ''.'' # rev q"
    using rr x by simp
  have t: "takeWhile (\<lambda>c. c \<noteq> CHR ''/'') (rev r @ CHR ''.'' # rev q)
             = rev r @ CHR ''.'' # takeWhile (\<lambda>c. c \<noteq> CHR ''/'') (rev q)"
    using assms by (simp add: takeWhile_neq_append)
  show ?thesis unfolding last_component_def d t by simp
qed

lemma extname_suffix:
  assumes "suffix (CHR ''.'' # r) n" "r \<noteq> []" "CHR ''/'' \<notin> set r" "CHR ''.'' \<notin> set r"
  shows "extname n = [] \<or> extname n = CHR ''.'' # r"
proof -
  from assms(1) obtain q where n: "n = q @ CHR ''.'' # r" by (auto simp: suffix_def)
  define q' where "q' = rev (takeWhile (\<lambda>c. c \<noteq> CHR ''/'') (rev q))"
  have c: "last_component n = q' @ CHR ''.'' # r"
    unfolding n q'_def using assms by (simp add: last_component_suffix)
  have a: "takeWhile (\<lambda>x. x \<noteq> CHR ''.'') (rev (q' @ CHR ''.'' # r)) = rev r"
    using assms(4) by (simp add: takeWhile_neq_append)
  show ?thesis
    unfolding extname_def c Let_def a by simp
qed

lemma toLowerCase_allowed:
  "toLowerCase x \<in> set allowedExt \<Longrightarrow> x \<noteq> []"
  by (auto simp: allowedExt_def toLowerCase_def)

lemma ext_txt:
  assumes "fileFilter f" "suffix ''.txt'' (originalname f)"
  shows "toLowerCase (extname (originalname f)) = ''.txt''"
proof -
  have "extname (originalname f) = [] \<or> extname (originalname f) = ''.txt''"
    using extname_suffix [of "''txt''" "originalname f"] assms(2) by simp
  moreover have "extname (originalname f) \<noteq> []"
    using assms(1) toLowerCase_allowed unfolding fileFilter_def by blast
  ultimately show ?thesis by (simp add: toLowerCase_def toLowerCase_char_def)
qed

lemma path_normalize_nonempty: "path_normalize p \<noteq> []"
  by (simp add: path_normalize_def Let_def)

lemma path_join_nonempty: "path_join args \<noteq> []"
  by (simp add: path_join_def Let_def path_normalize_nonempty)

lemma ext_pdf:
  assumes "fileFilter f" "suffix ''.pdf'' (originalname f)"
  shows "toLowerCase (extname (originalname f)) = ''.pdf''"
proof -
  have "extname (originalname f) = [] \<or> extname (originalname f) = ''.pdf''"
    using extname_suffix [of "''pdf''" "originalname f"] assms(2) by simp
  moreover have "extname (originalname f) \<noteq> []"
    using assms(1) toLowerCase_allowed unfolding fileFilter_def by blast
  ultimately show ?thesis by (simp add: toLowerCase_def toLowerCase_char_def)
qed

lemma ext_docx:
  assumes "fileFilter f" "suffix ''.docx'' (originalname f)"
  shows "toLowerCase (extname (originalname f)) = ''.docx''"
proof -
  have "extname (originalname f) = [] \<or> extname (originalname f) = ''.docx''"
    using extname_suffix [of "''docx''" "originalname f"] assms(2) by simp
  moreover have "extname (originalname f) \<noteq> []"
    using assms(1) toLowerCase_allowed unfolding fileFilter_def by blast
  ultimately show ?thesis by (simp add: toLowerCase_def toLowerCase_char_def)
qed

lemma convert_all_append:
  "convert_all e t st (pre @ post) =
     (case convert_all e t st pre of
        (d, Inl x) \<Rightarrow> (d, Inl x)
      | (d, Inr outs) \<Rightarrow> convert_all e t (d, outs) post)"
  by (induction pre arbitrary: st) (auto split: sum.splits)

lemma signature_padded:
  "(take 4 (c @ replicate 4 (0::byte)) = pdf_signature) = (take 4 c = pdf_signature)"
proof (cases "4 \<le> length c")
  case True
  then show ?thesis by simp
next
  case False
  then have "length c < 4" by simp
  then consider "c = []" | x where "c = [x]" | x y where "c = [x, y]" | x y z where "c = [x, y, z]"
    by (cases c; cases "tl c"; cases "tl (tl c)"; cases "tl (tl (tl c))") auto
  moreover have r: "replicate 4 (0::byte) = [0, 0, 0, 0]"
    by (simp add: numeral_eq_Suc)
  ultimately show ?thesis
    unfolding r by cases (simp_all add: pdf_signature_def)
qed

lemma isPdfFile_content:
  "d p = Some c \<Longrightarrow> isPdfFile d p = (take 4 c = pdf_signature)"
  unfolding isPdfFile_def readFile_def using signature_padded [of c] by simp

lemma removeIfExists_disk: "snd (removeIfExists d p) = d(p := None)"
  by (auto simp: removeIfExists_def unlink_def split: option.splits)

lemma remove_all_apply: "remove_all d ps q = (if q \<in> set ps then None else d q)"
  unfolding remove_all_def
  by (induction ps arbitrary: d) (auto simp: removeIfExists_disk)

lemma api_convert_disk:
  "files \<noteq> [] \<Longrightarrow>
   disk (snd (api_convert e bt files s))
     = cleanup_uploads files (disk (fst (try_block e (request_target bt) files s)))"
  by (simp add: api_convert_def Let_def split: prod.splits)

lemma api_convert_response:
  "files \<noteq> [] \<Longrightarrow>
   fst (api_convert e bt files s)
     = (case snd (try_block e (request_target bt) files s) of
          Inl x \<Rightarrow> JsonError 500 ''Conversion failed'' | Inr resp \<Rightarrow> resp)"
  by (simp add: api_convert_def Let_def split: prod.splits)

lemma split_slash_nonempty: "split_slash p \<noteq> []"
  by (induction p) (auto split: list.splits)

lemma split_slash_append:
  "split_slash (a @ CHR ''/'' # b) = split_slash a @ split_slash b"
  using split_slash_nonempty by (induction a) (auto split: list.splits)

lemma string_prefix_inside:
  "prefix (base @ ''/'') cand \<or> cand = base \<Longrightarrow> inside_dir base cand"
  by (auto simp: inside_dir_def path_segments_def prefix_def split_slash_append)

lemma demo_OUT_DIR: "OUT_DIR demo_env = ''/srv/app/converted''"
  by (simp add: OUT_DIR_def demo_env_def path_join_def path_normalize_def isAbsolute_def)

lemmas demo_files = notes_txt_def binary_txt_def scanned_pdf_def fake_pdf_def pdf_as_docx_def
  text_as_docx_def picture_png_def

lemma demo_filter:
  "fileFilter notes_txt" "fileFilter binary_txt" "fileFilter scanned_pdf" "fileFilter fake_pdf"
  "fileFilter pdf_as_docx" "fileFilter text_as_docx" "fileFilter picture_png"
  by (simp_all add: demo_files fileFilter_def extname_def last_component_def allowedExt_def
        toLowerCase_def toLowerCase_char_def)

lemma demo_suffix:
  "suffix ''.txt'' (originalname notes_txt)" "suffix ''.txt'' (originalname binary_txt)"
  "suffix ''.pdf'' (originalname scanned_pdf)" "suffix ''.pdf'' (originalname fake_pdf)"
  "suffix ''.docx'' (originalname pdf_as_docx)" "suffix ''.docx'' (originalname text_as_docx)"
  by (simp_all add: demo_files suffix_to_prefix)

section \<open>The body of the loop and the loop\<close>

lemma source_text_continue:
  assumes "source_text e d label f ext outs = Inr (Continue os)"
  shows "os = outs @ [last os] \<and> failure (last os)"
  using assms unfolding source_text_def
  by (auto split: if_splits sum.splits)

lemma source_text_text:
  assumes "source_text e d label f ext outs = Inr (Text os tx)"
  shows "os = outs \<or> (os = outs @ [last os] \<and> failure (last os) \<and> tx = [])"
  using assms unfolding source_text_def
  by (auto split: if_splits sum.splits)

lemma convert_one_to_txt:
  assumes "\<not> (toLowerCase (extname (originalname f)) = ''.txt'' \<and> \<not> looksLikeText d (path f))"
    and "\<not> (toLowerCase (extname (originalname f)) = ''.docx''
            \<and> mime_rejected (detectMime e d (path f)))"
  shows "convert_one e ''txt'' (d, outs) f =
     (case source_text e d ''TXT'' f (toLowerCase (extname (originalname f))) outs of
        Inl x \<Rightarrow> Inl x
      | Inr (Continue os) \<Rightarrow> Inr (d, os)
      | Inr (Text os tx) \<Rightarrow>
          Inr (d(path_join [OUT_DIR e, out_name ''txt'' f] \<mapsto> utf8_encode tx),
               os @ [Out (path_join [OUT_DIR e, out_name ''txt'' f]) (out_name ''txt'' f)]))"
proof -
  have a: "(toLowerCase (extname (originalname f)) = ''.txt'' \<and> \<not> looksLikeText d (path f)) = False"
    "(toLowerCase (extname (originalname f)) = ''.docx''
        \<and> mime_rejected (detectMime e d (path f))) = False"
    using assms by simp_all
  show ?thesis
    unfolding convert_one_def Let_def out_name_def fst_conv snd_conv a by simp
qed

lemma convert_one_to_docx:
  assumes "\<not> (toLowerCase (extname (originalname f)) = ''.txt'' \<and> \<not> looksLikeText d (path f))"
    and "\<not> (toLowerCase (extname (originalname f)) = ''.docx''
            \<and> mime_rejected (detectMime e d (path f)))"
  shows "convert_one e ''docx'' (d, outs) f =
     (case source_text e d ''DOCX'' f (toLowerCase (extname (originalname f))) outs of
        Inl x \<Rightarrow> Inl x
      | Inr (Continue os) \<Rightarrow> Inr (d, os)
      | Inr (Text os tx) \<Rightarrow>
          Inr (d(path_join [OUT_DIR e, out_name ''docx'' f] \<mapsto> txtToDocxBuffer e tx),
               os @ [Out (path_join [OUT_DIR e, out_name ''docx'' f]) (out_name ''docx'' f)]))"
proof -
  have a: "(toLowerCase (extname (originalname f)) = ''.txt'' \<and> \<not> looksLikeText d (path f)) = False"
    "(toLowerCase (extname (originalname f)) = ''.docx''
        \<and> mime_rejected (detectMime e d (path f))) = False"
    using assms by simp_all
  show ?thesis
    unfolding convert_one_def Let_def out_name_def fst_conv snd_conv a by simp
qed

lemma convert_one_encode:
  assumes "\<not> (toLowerCase (extname (originalname f)) = ''.txt'' \<and> \<not> looksLikeText d (path f))"
    and "\<not> (toLowerCase (extname (originalname f)) = ''.docx''
            \<and> mime_rejected (detectMime e d (path f)))"
    and "t = ''txt'' \<or> t = ''docx''"
    and "convert_one e t (d, outs) f = Inr (d', outs')"
  shows "\<exists>r. source_text e d (if t = ''txt'' then ''TXT'' else ''DOCX'') f
               (toLowerCase (extname (originalname f))) outs = Inr r
           \<and> (case r of
                 Continue os \<Rightarrow> d' = d \<and> outs' = os
               | Text os tx \<Rightarrow>
                   d' = d(path_join [OUT_DIR e, out_name t f]
                            \<mapsto> (if t = ''txt'' then utf8_encode tx else txtToDocxBuffer e tx))
                   \<and> outs' = os @ [Out (path_join [OUT_DIR e, out_name t f]) (out_name t f)])"
proof -
  from assms(3) show ?thesis
  proof
    assume t: "t = ''txt''"
    show ?thesis
      using assms(4) unfolding t convert_one_to_txt [OF assms(1,2)]
      by (simp split: sum.splits extraction.splits)
  next
    assume t: "t = ''docx''"
    show ?thesis
      using assms(4) unfolding t convert_one_to_docx [OF assms(1,2)]
      by (simp split: sum.splits extraction.splits)
  qed
qed

lemma convert_one_shape:
  assumes "convert_one e t (d, outs) f = Inr (d', outs')"
  shows "(d' = d \<and> outs' = outs @ [last outs'] \<and> failure (last outs'))
       \<or> (\<exists>c. outs' = outs @ [Out (path_join [OUT_DIR e, out_name t f]) (out_name t f)]
              \<and> d' = d(path_join [OUT_DIR e, out_name t f] \<mapsto> c))
       \<or> (\<exists>x c. failure x
              \<and> outs' = outs @ [x, Out (path_join [OUT_DIR e, out_name t f]) (out_name t f)]
              \<and> d' = d(path_join [OUT_DIR e, out_name t f] \<mapsto> c))"
proof -
  let ?ext = "toLowerCase (extname (originalname f))"
  consider (rejected) "(?ext = ''.txt'' \<and> \<not> looksLikeText d (path f))
                      \<or> (?ext = ''.docx'' \<and> mime_rejected (detectMime e d (path f)))"
    | (encode) "\<not> (?ext = ''.txt'' \<and> \<not> looksLikeText d (path f))"
             "\<not> (?ext = ''.docx'' \<and> mime_rejected (detectMime e d (path f)))"
             "t = ''txt'' \<or> t = ''docx''"
    | (other) "\<not> (?ext = ''.txt'' \<and> \<not> looksLikeText d (path f))"
             "\<not> (?ext = ''.docx'' \<and> mime_rejected (detectMime e d (path f)))"
             "t \<noteq> ''txt''" "t \<noteq> ''docx''"
    by blast
  then show ?thesis
  proof cases
    case rejected
    then have "d' = d \<and> outs' = outs @ [last outs'] \<and> failure (last outs')"
      using assms by (auto simp: convert_one_def)
    then show ?thesis by blast
  next
    case encode
    from convert_one_encode [OF encode assms] obtain r where
      r: "source_text e d (if t = ''txt'' then ''TXT'' else ''DOCX'') f ?ext outs = Inr r"
      and c: "case r of
                 Continue os \<Rightarrow> d' = d \<and> outs' = os
               | Text os tx \<Rightarrow>
                   d' = d(path_join [OUT_DIR e, out_name t f]
                            \<mapsto> (if t = ''txt'' then utf8_encode tx else txtToDocxBuffer e tx))
                   \<and> outs' = os @ [Out (path_join [OUT_DIR e, out_name t f]) (out_name t f)]"
      by blast
    show ?thesis
    proof (cases r)
      case (Continue os)
      with source_text_continue r c show ?thesis by fastforce
    next
      case (Text os tx)
      then have w: "\<exists>c. d' = d(path_join [OUT_DIR e, out_name t f] \<mapsto> c)"
        and o: "outs' = os @ [Out (path_join [OUT_DIR e, out_name t f]) (out_name t f)]"
        using c by auto
      from source_text_text r Text
      have "os = outs \<or> (os = outs @ [last os] \<and> failure (last os))" by blast
      then show ?thesis
      proof
        assume "os = outs"
        with w o show ?thesis by blast
      next
        assume a: "os = outs @ [last os] \<and> failure (last os)"
        then have "outs' = outs @ [last os, Out (path_join [OUT_DIR e, out_name t f]) (out_name t f)]"
          using o by (metis append_Cons append_Nil append_assoc)
        with a w show ?thesis by blast
      qed
    qed
  next
    case other
    then have "d' = d \<and> outs' = outs @ [last outs'] \<and> failure (last outs')"
      using assms by (auto simp: convert_one_def Let_def)
    then show ?thesis by blast
  qed
qed

lemma convert_one_step:
  assumes "convert_one e t (d, outs) f = Inr (d', outs')"
  shows "\<exists>new. outs' = outs @ new \<and> new \<noteq> []
           \<and> (\<forall>p n. Out p n \<in> set new \<longrightarrow> p = path_join [OUT_DIR e, n] \<and> d' p \<noteq> None)
           \<and> (\<forall>p. d p \<noteq> None \<longrightarrow> d' p \<noteq> None)
           \<and> (filter has_path new = [] \<longrightarrow>
                 d' = d \<and> (\<exists>m. m \<noteq> [] \<and> m \<noteq> ''Conversion failed'' \<and> new = [Err m]))"
proof -
  let ?P = "path_join [OUT_DIR e, out_name t f]"
  have P: "has_path (Out ?P (out_name t f))" by (simp add: path_join_nonempty)
  from convert_one_shape [OF assms] consider
      "d' = d" "outs' = outs @ [last outs']" "failure (last outs')"
    | c where "outs' = outs @ [Out ?P (out_name t f)]" "d' = d(?P \<mapsto> c)"
    | x c where "failure x" "outs' = outs @ [x, Out ?P (out_name t f)]" "d' = d(?P \<mapsto> c)"
    by blast
  then show ?thesis
  proof cases
    case 1
    from 1(3) obtain m where m: "last outs' = Err m" "m \<noteq> []" "m \<noteq> ''Conversion failed''"
      by (cases "last outs'") auto
    show ?thesis
      by (rule exI [of _ "[Err m]"]) (use 1 m in simp)
  next
    case 2
    show ?thesis
      by (rule exI [of _ "[Out ?P (out_name t f)]"]) (simp add: 2 path_join_nonempty)
  next
    case 3
    from 3(1) obtain m where m: "x = Err m" by (cases x) auto
    show ?thesis
      by (rule exI [of _ "[Err m, Out ?P (out_name t f)]"]) (simp add: 3 m path_join_nonempty)
  qed
qed

lemma convert_all_outputs:
  assumes "convert_all e t (d, outs) files = (d', Inr outs')"
  shows "\<exists>new. outs' = outs @ new \<and> (files \<noteq> [] \<longrightarrow> new \<noteq> [])
           \<and> (\<forall>p n. Out p n \<in> set new \<longrightarrow> p = path_join [OUT_DIR e, n] \<and> d' p \<noteq> None)
           \<and> (\<forall>p. d p \<noteq> None \<longrightarrow> d' p \<noteq> None)"
  using assms
proof (induction files arbitrary: d outs)
  case Nil
  then show ?case by simp
next
  case (Cons f rest)
  from Cons.prems obtain d1 o1 where
    one: "convert_one e t (d, outs) f = Inr (d1, o1)"
    and rest: "convert_all e t (d1, o1) rest = (d', Inr outs')"
    by (auto split: sum.splits)
  from convert_one_step [OF one] obtain n1 where
    n1: "o1 = outs @ n1" "n1 \<noteq> []"
      "\<forall>p n. Out p n \<in> set n1 \<longrightarrow> p = path_join [OUT_DIR e, n] \<and> d1 p \<noteq> None"
      "\<forall>p. d p \<noteq> None \<longrightarrow> d1 p \<noteq> None"
    by blast
  from Cons.IH [OF rest] obtain n2 where
    n2: "outs' = o1 @ n2"
      "\<forall>p n. Out p n \<in> set n2 \<longrightarrow> p = path_join [OUT_DIR e, n] \<and> d' p \<noteq> None"
      "\<forall>p. d1 p \<noteq> None \<longrightarrow> d' p \<noteq> None"
    by blast
  have "outs' = outs @ (n1 @ n2)" using n1(1) n2(1) by simp
  moreover have "n1 @ n2 \<noteq> []" using n1(2) by simp
  moreover have "\<forall>p n. Out p n \<in> set (n1 @ n2) \<longrightarrow> p = path_join [OUT_DIR e, n] \<and> d' p \<noteq> None"
    using n1(3) n2(2,3) by auto
  moreover have "\<forall>p. d p \<noteq> None \<longrightarrow> d' p \<noteq> None"
    using n1(4) n2(3) by blast
  ultimately show ?case by blast
qed

lemma firstErr_Cons: "m \<noteq> [] \<Longrightarrow> firstErr (Err m # rest) = m"
  by (simp add: firstErr_def)

lemma package_none:
  "filter has_path outputs = [] \<Longrightarrow>
   package e target outputs s = (s, Inr (JsonError 422 (firstErr outputs)))"
  by (simp add: package_def)

lemma package_one:
  assumes "filter has_path outputs = [one]" and "disk s (item_path one) = Some c"
  shows "package e target outputs s =
     (\<lparr>disk = (disk s)(item_path one := None,
                path_join [OUT_DIR e, nanoid e @ ''-'' @ item_name one] \<mapsto> c),
       history = addHistory
         \<lparr>entry_id = nanoid e, entry_name = item_name one, entry_count = 1,
          entry_target = target, entry_time = date_now e\<rparr> (history s)\<rparr>,
      Inr (JsonUrl (''/download/'' @ nanoid e @ ''/'' @ encodeURIComponent (item_name one))))"
  using assms by (simp add: package_def rename_def Let_def)






section \<open>The example installation, evaluated\<close>

lemma demo_detect:
  "detectMime demo_env demo_disk (path text_as_docx) = None"
  "detectMime demo_env demo_disk (path pdf_as_docx) = Some ''application/pdf''"
  by (simp_all add: detectMime_def readFile_def demo_disk_def demo_env_def demo_files pdf_signature_def)

lemma demo_png_extension:
  "toLowerCase (extname (originalname picture_png)) = ''.png''"
  by (simp add: demo_files extname_def last_component_def toLowerCase_def toLowerCase_char_def)

lemma demo_png_paths:
  "path_join [OUT_DIR demo_env, ''photo.txt''] = ''/srv/app/converted/photo.txt''"
  "path_join [OUT_DIR demo_env, ''V1StGXR8_Z-photo.txt''] = ''/srv/app/converted/V1StGXR8_Z-photo.txt''"
  by (simp_all add: demo_OUT_DIR path_join_def path_normalize_def isAbsolute_def)

lemma demo_png_step:
  "convert_one demo_env ''txt'' (demo_disk, []) picture_png
     = Inr (demo_disk(''/srv/app/converted/photo.txt'' \<mapsto> []),
            [Err ''OCR not enabled for images: photo.png'',
             Out ''/srv/app/converted/photo.txt'' ''photo.txt''])"
proof -
  have b: "basename (originalname picture_png) ''.png'' = ''photo''"
    by (simp add: demo_files basename_def last_component_def suffix_to_prefix)
  show ?thesis
    unfolding convert_one_def Let_def demo_png_extension b
    by (simp add: source_text_def isImageExt_def demo_png_paths)
       (simp add: demo_env_def picture_png_def)
qed

lemma convert_one_not_text:
  assumes "toLowerCase (extname (originalname f)) = ''.txt''"
    and "d (path f) = Some c" and "0 \<in> set c"
  shows "convert_one e t (d, outs) f = Inr (d, outs @ [Err (''Not a text file: '' @ originalname f)])"
  using assms by (simp add: convert_one_def looksLikeText_def readFile_def)

lemma convert_one_invalid_pdf:
  assumes "toLowerCase (extname (originalname f)) = ''.pdf''"
    and "t = ''txt'' \<or> t = ''docx''"
    and "d (path f) = Some c" and "take 4 c \<noteq> pdf_signature"
  shows "convert_one e t (d, outs) f = Inr (d, outs @ [Err (''Invalid PDF file: '' @ originalname f)])"
  using assms by (auto simp: convert_one_def source_text_def isPdfFile_content)

lemma convert_one_txt_to_txt:
  assumes "toLowerCase (extname (originalname f)) = ''.txt''"
    and "d (path f) = Some c" and "0 \<notin> set c"
  shows "convert_one e ''txt'' (d, outs) f
           = Inr (d(path_join [OUT_DIR e, out_name ''txt'' f] \<mapsto> utf8_encode (utf8_decode c)),
                  outs @ [Out (path_join [OUT_DIR e, out_name ''txt'' f]) (out_name ''txt'' f)])"
  using assms
  by (simp add: convert_one_def source_text_def looksLikeText_def readFile_def Let_def out_name_def)

lemma convert_one_pdf_to_txt:
  assumes "toLowerCase (extname (originalname f)) = ''.pdf''"
    and "d (path f) = Some c" and "take 4 c = pdf_signature"
    and "pdfParse e c = Inr tx" and "trim tx \<noteq> []"
  shows "convert_one e ''txt'' (d, outs) f
           = Inr (d(path_join [OUT_DIR e, out_name ''txt'' f] \<mapsto> utf8_encode (trim tx)),
                  outs @ [Out (path_join [OUT_DIR e, out_name ''txt'' f]) (out_name ''txt'' f)])"
  using assms
  by (simp add: convert_one_def source_text_def isPdfFile_content toTxtFromPdf_def readFile_def
        Let_def out_name_def)

lemma demo_extensions:
  "toLowerCase (extname (originalname notes_txt)) = ''.txt''"
  "toLowerCase (extname (originalname binary_txt)) = ''.txt''"
  "toLowerCase (extname (originalname fake_pdf)) = ''.pdf''"
  "toLowerCase (extname (originalname notes_pdf)) = ''.pdf''"
  by (simp_all add: demo_files notes_pdf_def extname_def last_component_def toLowerCase_def
        toLowerCase_char_def)

lemma demo_out_name:
  "out_name ''txt'' notes_txt = ''notes.txt''"
  "out_name ''txt'' notes_pdf = ''notes.txt''"
  unfolding out_name_def demo_extensions
  by (simp_all add: notes_txt_def notes_pdf_def basename_def last_component_def suffix_to_prefix)

lemma demo_output_paths:
  "path_join [OUT_DIR demo_env, ''notes.txt''] = ''/srv/app/converted/notes.txt''"
  "path_join [OUT_DIR demo_env, ''V1StGXR8_Z-notes.txt''] = ''/srv/app/converted/V1StGXR8_Z-notes.txt''"
  by (simp_all add: demo_OUT_DIR path_join_def path_normalize_def isAbsolute_def)

lemma demo_codec:
  "utf8_encode (utf8_decode [0x68, 0x69]) = [0x68, 0x69]"
  "utf8_encode (trim [0x48, 0x65, 0x6C, 0x6C, 0x6F]) = [0x48, 0x65, 0x6C, 0x6C, 0x6F]"
  by (simp_all add: utf8_encode_def utf8_decode_def utf8_scan_unfold utf8_encode_cp_def
        trim_def isWhiteSpace_def)

lemma demo_two_failures:
  "convert_all demo_env ''txt'' (demo_disk, []) [binary_txt, fake_pdf]
     = (demo_disk, Inr [Err ''Not a text file: binary.txt'', Err ''Invalid PDF file: fake.pdf''])"
proof -
  have a: "convert_one demo_env ''txt'' (demo_disk, []) binary_txt
             = Inr (demo_disk, [Err ''Not a text file: binary.txt''])"
    using convert_one_not_text [OF demo_extensions(2), of demo_disk "[0x68, 0x00]" demo_env "''txt''" "[]"]
    by (simp add: binary_txt_def demo_disk_def)
  have b: "convert_one demo_env ''txt'' (demo_disk, [Err ''Not a text file: binary.txt'']) fake_pdf
             = Inr (demo_disk, [Err ''Not a text file: binary.txt'', Err ''Invalid PDF file: fake.pdf''])"
    using convert_one_invalid_pdf [OF demo_extensions(3), of "''txt''" demo_disk "[0x68, 0x69]" demo_env
        "[Err ''Not a text file: binary.txt'']"]
    by (simp add: fake_pdf_def demo_disk_def pdf_signature_def)
  show ?thesis by (simp add: a b)
qed

lemma demo_notes_step:
  "convert_one demo_env ''txt'' (demo_disk, []) notes_txt
     = Inr (demo_disk(''/srv/app/converted/notes.txt'' \<mapsto> [0x68, 0x69]),
            [Out ''/srv/app/converted/notes.txt'' ''notes.txt''])"
  using convert_one_txt_to_txt [OF demo_extensions(1), of demo_disk "[0x68, 0x69]" demo_env "[]"]
  by (simp add: demo_out_name demo_output_paths demo_codec) (simp add: notes_txt_def demo_disk_def)

lemma demo_notes_pdf_step:
  "convert_one demo_env ''txt''
     (demo_disk(''/srv/app/converted/notes.txt'' \<mapsto> [0x68, 0x69]),
      [Out ''/srv/app/converted/notes.txt'' ''notes.txt'']) notes_pdf
     = Inr (demo_disk(''/srv/app/converted/notes.txt'' \<mapsto> [0x48, 0x65, 0x6C, 0x6C, 0x6F]),
            [Out ''/srv/app/converted/notes.txt'' ''notes.txt'',
             Out ''/srv/app/converted/notes.txt'' ''notes.txt''])"
proof -
  have p: "pdfParse demo_env [0x25, 0x50, 0x44, 0x46, 0x2D] = Inr [0x48, 0x65, 0x6C, 0x6C, 0x6F]"
    "trim [0x48, 0x65, 0x6C, 0x6C, 0x6F] \<noteq> []" "take 4 [0x25, 0x50, 0x44, 0x46, 0x2D] = pdf_signature"
    by (simp_all add: demo_env_def trim_def isWhiteSpace_def pdf_signature_def)
  have d: "(demo_disk(''/srv/app/converted/notes.txt'' \<mapsto> [0x68, 0x69])) (path notes_pdf)
             = Some [0x25, 0x50, 0x44, 0x46, 0x2D]"
    by (simp add: notes_pdf_def demo_disk_def)
  show ?thesis
    using convert_one_pdf_to_txt [where f = notes_pdf and e = demo_env
        and d = "demo_disk(''/srv/app/converted/notes.txt'' \<mapsto> [0x68, 0x69])"
        and c = "[0x25, 0x50, 0x44, 0x46, 0x2D]" and tx = "[0x48, 0x65, 0x6C, 0x6C, 0x6F]"
        and outs = "[Out ''/srv/app/converted/notes.txt'' ''notes.txt'']", OF demo_extensions(4) d p(3) p(1) p(2)]
    by (simp add: demo_out_name demo_output_paths demo_codec)
qed

lemma demo_fake_pdf_step:
  "convert_one demo_env ''txt''
     (demo_disk(''/srv/app/converted/notes.txt'' \<mapsto> [0x68, 0x69]),
      [Out ''/srv/app/converted/notes.txt'' ''notes.txt'']) fake_pdf
     = Inr (demo_disk(''/srv/app/converted/notes.txt'' \<mapsto> [0x68, 0x69]),
            [Out ''/srv/app/converted/notes.txt'' ''notes.txt'', Err ''Invalid PDF file: fake.pdf''])"
  using convert_one_invalid_pdf [OF demo_extensions(3),
      of "''txt''" "demo_disk(''/srv/app/converted/notes.txt'' \<mapsto> [0x68, 0x69])" "[0x68, 0x69]"
         demo_env "[Out ''/srv/app/converted/notes.txt'' ''notes.txt'']"]
  by (simp add: fake_pdf_def demo_disk_def pdf_signature_def)

section \<open>Paths in the output directory, exits of the handler\<close>

lemma split_slash_plain: "CHR ''/'' \<notin> set s \<Longrightarrow> split_slash s = [s]"
  by (induction s) auto

lemma split_slash_parts: "s \<in> set (split_slash p) \<Longrightarrow> CHR ''/'' \<notin> set s"
  by (induction p arbitrary: s) (auto split: if_splits list.splits)

lemma join_slash_snoc: "xs \<noteq> [] \<Longrightarrow> join_slash (xs @ [s]) = join_slash xs @ ''/'' @ s"
  by (induction xs rule: join_slash.induct) auto

lemma split_slash_join:
  "xs \<noteq> [] \<Longrightarrow> \<forall>s \<in> set xs. CHR ''/'' \<notin> set s \<Longrightarrow> split_slash (join_slash xs) = xs"
proof (induction xs rule: join_slash.induct)
  case 1
  then show ?case by simp
next
  case (2 s)
  then show ?case by (simp add: split_slash_plain)
next
  case (3 s t ss)
  then show ?case
    using split_slash_append [of s "join_slash (t # ss)"] by (simp add: split_slash_plain)
qed

lemma normalizeString_normal:
  "\<forall>s \<in> set xs. normal_segment s \<Longrightarrow> normalizeString up res xs = res @ xs"
  by (induction xs arbitrary: res) (auto simp: normal_segment_def)

lemma normalizeString_snoc:
  "normal_segment s \<Longrightarrow> normalizeString up res (xs @ [s]) = normalizeString up res xs @ [s]"
  by (induction xs arbitrary: res) (auto simp: normal_segment_def)

lemma normalizeString_skip:
  "normalizeString up res (xs @ [[]]) = normalizeString up res xs"
  by (induction xs arbitrary: res) auto

lemma normalizeString_segments:
  "\<forall>s \<in> set res. normal_segment s \<Longrightarrow> \<forall>s \<in> set xs. CHR ''/'' \<notin> set s \<Longrightarrow>
   \<forall>s \<in> set (normalizeString False res xs). normal_segment s"
proof (induction xs arbitrary: res)
  case Nil
  then show ?case by simp
next
  case (Cons x xs)
  have xs: "\<forall>s \<in> set xs. CHR ''/'' \<notin> set s" using Cons.prems(2) by simp
  consider "x = [] \<or> x = ''.''"
    | "x = ''..''" "res \<noteq> [] \<and> last res \<noteq> ''..''"
    | "x = ''..''" "\<not> (res \<noteq> [] \<and> last res \<noteq> ''..'')"
    | "x \<noteq> []" "x \<noteq> ''.''" "x \<noteq> ''..''"
    by blast
  then show ?case
  proof cases
    case 1
    then have "normalizeString False res (x # xs) = normalizeString False res xs" by auto
    then show ?thesis using Cons.IH [OF Cons.prems(1) xs] by simp
  next
    case 2
    have b: "\<forall>s \<in> set (butlast res). normal_segment s"
      using Cons.prems(1) by (meson in_set_butlastD)
    have "normalizeString False res (x # xs) = normalizeString False (butlast res) xs"
      using 2 by simp
    then show ?thesis using Cons.IH [OF b xs] by simp
  next
    case 3
    then have "normalizeString False res (x # xs) = normalizeString False res xs" by auto
    then show ?thesis using Cons.IH [OF Cons.prems(1) xs] by simp
  next
    case 4
    then have n: "normal_segment x" using Cons.prems(2) by (simp add: normal_segment_def)
    then have a: "\<forall>s \<in> set (res @ [x]). normal_segment s" using Cons.prems(1) by simp
    have "normalizeString False res (x # xs) = normalizeString False (res @ [x]) xs"
      using 4 by simp
    then show ?thesis using Cons.IH [OF a xs] by simp
  qed
qed

lemma join_slash_nonempty:
  "xs \<noteq> [] \<Longrightarrow> \<forall>s \<in> set xs. s \<noteq> [] \<Longrightarrow> join_slash xs \<noteq> []"
  by (induction xs rule: join_slash.induct) auto

lemma normal_converted: "normal_segment ''converted''"
  by (simp add: normal_segment_def)

lemma OUT_DIR_segments:
  assumes "isAbsolute (dirname e)"
  shows "\<exists>segs. segs \<noteq> [] \<and> (\<forall>s \<in> set segs. normal_segment s)
           \<and> OUT_DIR e = ''/'' @ join_slash segs"
proof -
  let ?dn = "dirname e"
  let ?segs = "normalizeString False [] (split_slash ?dn) @ [''converted'']"
  from assms have ne: "?dn \<noteq> []" by (auto simp: isAbsolute_def)
  then have ab: "isAbsolute (?dn @ ''/converted'')"
    using assms by (cases ?dn) (auto simp: isAbsolute_def)
  have sp: "split_slash (?dn @ ''/converted'') = split_slash ?dn @ [''converted'']"
    using split_slash_append [of ?dn "''converted''"] by (simp add: split_slash_plain)
  have ns: "normalizeString False [] (split_slash (?dn @ ''/converted'')) = ?segs"
    unfolding sp by (rule normalizeString_snoc [OF normal_converted])
  have "\<forall>s \<in> set (normalizeString False [] (split_slash ?dn)). normal_segment s"
    by (rule normalizeString_segments) (auto dest: split_slash_parts)
  then have normal: "\<forall>s \<in> set ?segs. normal_segment s"
    using normal_converted by auto
  then have "\<forall>s \<in> set ?segs. s \<noteq> []" by (auto simp: normal_segment_def)
  then have js: "join_slash ?segs \<noteq> []"
    by (intro join_slash_nonempty) auto
  have "OUT_DIR e = path_normalize (?dn @ ''/converted'')"
    using ne by (simp add: OUT_DIR_def path_join_def)
  also have "\<dots> = ''/'' @ join_slash ?segs"
    using ab js ns by (simp add: path_normalize_def Let_def)
  finally show ?thesis using normal by blast
qed

lemma rooted_split:
  assumes "segs \<noteq> []" and "\<forall>s \<in> set segs. normal_segment s" and "CHR ''/'' \<notin> set x"
  shows "split_slash (join_slash segs @ CHR ''/'' # x) = segs @ [x]"
proof -
  have sf: "\<forall>s \<in> set segs. CHR ''/'' \<notin> set s" using assms(2) by (simp add: normal_segment_def)
  show ?thesis
    using split_slash_append [of "join_slash segs" x] split_slash_join [OF assms(1) sf]
    by (simp add: split_slash_plain assms(3))
qed

lemma rooted_join:
  assumes "segs \<noteq> []" and "\<forall>s \<in> set segs. normal_segment s" and "normal_segment x"
  shows "path_join [''/'' @ join_slash segs, x] = ''/'' @ join_slash segs @ ''/'' @ x"
proof -
  have x: "x \<noteq> []" "CHR ''/'' \<notin> set x" using assms(3) by (simp_all add: normal_segment_def)
  then have lx: "last x \<noteq> CHR ''/''" by (metis last_in_set)
  have all: "\<forall>s \<in> set (segs @ [x]). normal_segment s" using assms by simp
  have ns: "normalizeString False [] (segs @ [x]) = segs @ [x]"
    using normalizeString_normal [OF all, of False "[]"] by simp
  have js: "join_slash (segs @ [x]) = join_slash segs @ CHR ''/'' # x"
    using join_slash_snoc [OF assms(1), of x] by simp
  show ?thesis
    using x lx
    by (simp add: path_join_def path_normalize_def Let_def isAbsolute_def
          rooted_split [OF assms(1,2) x(2)] ns js)
qed

lemma rooted_resolve:
  assumes "segs \<noteq> []" and "\<forall>s \<in> set segs. normal_segment s"
  shows "path_resolve c [''/'' @ join_slash segs] = ''/'' @ join_slash segs"
proof -
  have e: "CHR ''/'' \<notin> set []" by simp
  have ns: "normalizeString False [] (segs @ [[]]) = segs"
    using normalizeString_skip [of False "[]" segs] normalizeString_normal [OF assms(2), of False "[]"]
    by simp
  show ?thesis
    by (simp add: path_resolve_def isAbsolute_def rooted_split [OF assms e] ns)
qed

lemma rooted_resolve_in:
  assumes "segs \<noteq> []" and "\<forall>s \<in> set segs. normal_segment s" and "normal_segment x"
  shows "path_resolve c [''/'' @ join_slash segs, x] = ''/'' @ join_slash segs @ ''/'' @ x"
proof -
  have x: "x \<noteq> []" "CHR ''/'' \<notin> set x" using assms(3) by (simp_all add: normal_segment_def)
  then have nx: "\<not> isAbsolute x" by (cases x) (auto simp: isAbsolute_def)
  have sp: "split_slash (join_slash segs @ CHR ''/'' # x @ ''/'') = segs @ [x, []]"
    using split_slash_append [of "join_slash segs @ CHR ''/'' # x" "[]"]
      rooted_split [OF assms(1,2) x(2)]
    by simp
  have all: "\<forall>s \<in> set (segs @ [x]). normal_segment s" using assms by simp
  have ns: "normalizeString False [] (segs @ [x, []]) = segs @ [x]"
    using normalizeString_skip [of False "[]" "segs @ [x]"]
      normalizeString_normal [OF all, of False "[]"]
    by simp
  have js: "join_slash (segs @ [x]) = join_slash segs @ CHR ''/'' # x"
    using join_slash_snoc [OF assms(1), of x] by simp
  show ?thesis
    using nx x by (simp add: path_resolve_def isAbsolute_def sp ns js)
qed

lemma OUT_DIR_join:
  assumes "isAbsolute (dirname e)" and "normal_segment x"
  shows "path_join [OUT_DIR e, x] = OUT_DIR e @ ''/'' @ x"
  using OUT_DIR_segments [OF assms(1)] rooted_join [OF _ _ assms(2)] by fastforce

lemma OUT_DIR_resolve:
  assumes "isAbsolute (dirname e)"
  shows "path_resolve c [OUT_DIR e] = OUT_DIR e"
  using OUT_DIR_segments [OF assms(1)] rooted_resolve by fastforce

lemma OUT_DIR_resolve_in:
  assumes "isAbsolute (dirname e)" and "normal_segment x"
  shows "path_resolve c [OUT_DIR e, x] = OUT_DIR e @ ''/'' @ x"
  using OUT_DIR_segments [OF assms(1)] rooted_resolve_in [OF _ _ assms(2)] by fastforce

lemma last_component_plain: "CHR ''/'' \<notin> set p \<Longrightarrow> last_component p = p"
proof -
  assume a: "CHR ''/'' \<notin> set p"
  then have d: "dropWhile (\<lambda>c. c = CHR ''/'') (rev p) = rev p"
    by (cases "rev p") (auto simp: dropWhile_eq_self_iff)
  have t: "takeWhile (\<lambda>c. c \<noteq> CHR ''/'') (rev p) = rev p"
    using a by (auto simp: takeWhile_eq_all_conv)
  show ?thesis unfolding last_component_def d t by simp
qed

lemma trailing_slashes_plain: "CHR ''/'' \<notin> set p \<Longrightarrow> trailing_slashes p = []"
  by (cases "rev p") (auto simp: trailing_slashes_def takeWhile_eq_Nil_iff)

lemma basename_plain: "CHR ''/'' \<notin> set p \<Longrightarrow> CHR ''/'' \<notin> set (basename p s)"
  by (auto simp: basename_def last_component_plain trailing_slashes_plain Let_def
      dest: in_set_takeD)

lemma out_name_normal:
  assumes "CHR ''/'' \<notin> set (originalname f)" and "t = ''txt'' \<or> t = ''docx''"
  shows "normal_segment (out_name t f)"
    and "CHR ''/'' \<notin> set ident \<Longrightarrow> normal_segment (ident @ ''-'' @ out_name t f)"
  using assms basename_plain [OF assms(1)]
  by (auto simp: normal_segment_def out_name_def append_eq_Cons_conv Cons_eq_append_conv)

lemma convert_one_other_target:
  assumes "t \<noteq> ''txt''" and "t \<noteq> ''docx''"
    and "convert_one e t (d, outs) f = Inr (d', outs')"
  shows "\<not> has_path (last outs')"
  using assms by (auto simp: convert_one_def Let_def split: if_splits)

lemma convert_one_names:
  assumes "convert_one e t (d, outs) f = Inr (d', outs')"
  shows "\<exists>new. outs' = outs @ new
           \<and> (\<forall>p n. Out p n \<in> set new \<longrightarrow> n = out_name t f \<and> (t = ''txt'' \<or> t = ''docx''))"
proof -
  let ?P = "path_join [OUT_DIR e, out_name t f]"
  from convert_one_shape [OF assms] consider
      "outs' = outs @ [last outs']" "failure (last outs')"
    | "outs' = outs @ [Out ?P (out_name t f)]"
    | x where "failure x" "outs' = outs @ [x, Out ?P (out_name t f)]"
    by blast
  then show ?thesis
  proof cases
    case 1
    from 1(2) obtain m where "last outs' = Err m" by (cases "last outs'") auto
    with 1(1) have "outs' = outs @ [Err m]" by simp
    then show ?thesis by auto
  next
    case 2
    then have "has_path (last outs')" by (simp add: path_join_nonempty)
    with convert_one_other_target [OF _ _ assms] have "t = ''txt'' \<or> t = ''docx''" by blast
    with 2 show ?thesis by auto
  next
    case 3
    then have "has_path (last outs')" by (simp add: path_join_nonempty)
    with convert_one_other_target [OF _ _ assms] have t: "t = ''txt'' \<or> t = ''docx''" by blast
    from 3(1) obtain m where "x = Err m" by (cases x) auto
    with 3 t show ?thesis by auto
  qed
qed

lemma convert_all_names:
  assumes "convert_all e t (d, outs) files = (d', Inr outs')"
  shows "\<exists>new. outs' = outs @ new
           \<and> (\<forall>p n. Out p n \<in> set new \<longrightarrow>
                 (\<exists>f \<in> set files. n = out_name t f) \<and> (t = ''txt'' \<or> t = ''docx''))"
  using assms
proof (induction files arbitrary: d outs)
  case Nil
  then show ?case by simp
next
  case (Cons f rest)
  from Cons.prems obtain d1 o1 where
    one: "convert_one e t (d, outs) f = Inr (d1, o1)"
    and rest: "convert_all e t (d1, o1) rest = (d', Inr outs')"
    by (auto split: sum.splits)
  from convert_one_names [OF one] obtain n1 where
    n1: "o1 = outs @ n1"
      "\<forall>p n. Out p n \<in> set n1 \<longrightarrow> n = out_name t f \<and> (t = ''txt'' \<or> t = ''docx'')"
    by blast
  from Cons.IH [OF rest] obtain n2 where
    n2: "outs' = o1 @ n2"
      "\<forall>p n. Out p n \<in> set n2 \<longrightarrow> (\<exists>f \<in> set rest. n = out_name t f) \<and> (t = ''txt'' \<or> t = ''docx'')"
    by blast
  have "outs' = outs @ (n1 @ n2)" using n1(1) n2(1) by simp
  moreover have "\<forall>p n. Out p n \<in> set (n1 @ n2) \<longrightarrow>
      (\<exists>g \<in> set (f # rest). n = out_name t g) \<and> (t = ''txt'' \<or> t = ''docx'')"
    using n1(2) n2(2) by auto
  ultimately show ?case by blast
qed

lemma download_artifact:
  assumes "isAbsolute (dirname e)" and "normal_segment (ident @ ''-'' @ name)"
    and "dk (OUT_DIR e @ ''/'' @ ident @ ''-'' @ name) \<noteq> None"
  shows "download e dk ident name = Download (OUT_DIR e @ ''/'' @ ident @ ''-'' @ name) name"
proof -
  have b: "path_resolve (cwd e) [OUT_DIR e] = OUT_DIR e"
    by (rule OUT_DIR_resolve [OF assms(1)])
  have r: "path_resolve (cwd e) [OUT_DIR e, ident @ ''-'' @ name]
             = OUT_DIR e @ ''/'' @ ident @ ''-'' @ name"
    by (rule OUT_DIR_resolve_in [OF assms(1,2)])
  show ?thesis
    unfolding download_def Let_def b r using assms(3) by simp
qed

lemma hex_digit_plain: "hex_digit k \<noteq> CHR ''/''"
proof -
  have "k mod 16 < length ''0123456789ABCDEF''" by simp
  then have "hex_digit k \<in> set ''0123456789ABCDEF''"
    unfolding hex_digit_def by (rule nth_mem)
  then show ?thesis by auto
qed






lemma package_response:
  "(\<exists>x. snd (package e t outs s) = Inl x)
   \<or> (\<exists>m. snd (package e t outs s) = Inr (JsonError 422 m))
   \<or> (\<exists>u. snd (package e t outs s) = Inr (JsonUrl u))"
proof (cases "filter has_path outs")
  case Nil
  then show ?thesis by (simp add: package_def)
next
  case (Cons one rest)
  show ?thesis
  proof (cases rest)
    case Nil
    show ?thesis
      by (cases "rename (disk s) (item_path one)
                   (path_join [OUT_DIR e, nanoid e @ ''-'' @ item_name one])")
         (simp_all add: package_def Cons Nil Let_def)
  next
    case (Cons two others)
    let ?zipName = "''converted-'' @ decimal (date_now e) @ ''.zip''"
    show ?thesis
    proof (cases "archive_entries (disk s) (one # two # others)")
      case (Inl x)
      then show ?thesis
        using \<open>filter has_path outs = one # rest\<close> Cons by (simp add: package_def Let_def)
    next
      case (Inr es)
      show ?thesis
        by (cases "rename (remove_all ((disk s)(path_join [OUT_DIR e, ?zipName] \<mapsto> zipBytes e es))
                            (map item_path (one # two # others)))
                     (path_join [OUT_DIR e, ?zipName])
                     (path_join [OUT_DIR e, nanoid e @ ''-'' @ ?zipName])")
           (use \<open>filter has_path outs = one # rest\<close> Cons Inr in
             \<open>simp_all add: package_def Let_def\<close>)
    qed
  qed
qed

lemma api_convert_thrown:
  assumes "files \<noteq> []" and "convert_all e (request_target bt) (disk s, []) files = (d, Inl x)"
  shows "fst (api_convert e bt files s) = JsonError 500 ''Conversion failed''"
  using assms by (simp add: api_convert_response try_block_def)

lemma api_convert_exits:
  assumes "files \<noteq> []"
  shows "(\<exists>m. fst (api_convert e bt files s) = JsonError 422 m)
       \<or> fst (api_convert e bt files s) = JsonError 500 ''Conversion failed''
       \<or> (\<exists>u. fst (api_convert e bt files s) = JsonUrl u)"
proof (cases "convert_all e (request_target bt) (disk s, []) files")
  case (Pair d r)
  show ?thesis
  proof (cases r)
    case (Inl x)
    with Pair assms show ?thesis by (simp add: api_convert_thrown)
  next
    case (Inr outs)
    with Pair assms package_response [of e "request_target bt" outs "s\<lparr>disk := d\<rparr>"]
    show ?thesis
      by (auto simp: api_convert_response try_block_def)
  qed
qed



lemma demo_thrown:
  "convert_all demo_env ''txt'' (demo_disk, []) [text_as_docx] = (demo_disk, Inl ''not a zip file'')"
proof -
  have "convert_one demo_env ''txt'' (demo_disk, []) text_as_docx = Inl ''not a zip file''"
    using ext_docx [OF demo_filter(6) demo_suffix(6)]
    by (simp add: convert_one_def demo_detect mime_rejected_def source_text_def
          toTxtFromDocx_def readFile_def)
       (simp add: text_as_docx_def demo_disk_def demo_env_def)
  then show ?thesis by simp
qed

lemma demo_docx_throws:
  assumes "d (path text_as_docx) = Some [0x68, 0x69]"
  shows "convert_one demo_env ''txt'' (d, outs) text_as_docx = Inl ''not a zip file''"
proof -
  have m: "detectMime demo_env d (path text_as_docx) = None"
    using assms by (simp add: detectMime_def readFile_def demo_env_def pdf_signature_def)
  have x: "toTxtFromDocx demo_env d (path text_as_docx) = Inl ''not a zip file''"
    using assms by (simp add: toTxtFromDocx_def readFile_def demo_env_def)
  show ?thesis
    using ext_docx [OF demo_filter(6) demo_suffix(6)]
    by (simp add: convert_one_def m x mime_rejected_def source_text_def)
qed

lemma demo_binary_step:
  "convert_one demo_env ''txt'' (demo_disk, []) binary_txt
     = Inr (demo_disk, [Err ''Not a text file: binary.txt''])"
  using convert_one_not_text [OF demo_extensions(2), of demo_disk "[0x68, 0x00]" demo_env "''txt''" "[]"]
  by (simp add: binary_txt_def demo_disk_def)

lemma demo_notes_then_thrown:
  "convert_all demo_env ''txt'' (demo_disk, []) [notes_txt, text_as_docx]
     = (demo_disk(''/srv/app/converted/notes.txt'' \<mapsto> [0x68, 0x69]), Inl ''not a zip file'')"
proof -
  have d: "(demo_disk(''/srv/app/converted/notes.txt'' \<mapsto> [0x68, 0x69])) (path text_as_docx)
             = Some [0x68, 0x69]"
    by (simp add: demo_disk_def text_as_docx_def)
  note b = demo_docx_throws [where d = "demo_disk(''/srv/app/converted/notes.txt'' \<mapsto> [0x68, 0x69])"
      and outs = "[Out ''/srv/app/converted/notes.txt'' ''notes.txt'']", OF d]
  show ?thesis by (simp add: demo_notes_step b)
qed

lemma demo_spaced:
  "toLowerCase (extname (originalname spaced_txt)) = ''.txt''"
  "out_name ''txt'' spaced_txt = ''my notes 100%.txt''"
  "path_join [OUT_DIR demo_env, ''my notes 100%.txt''] = ''/srv/app/converted/my notes 100%.txt''"
  "path_join [OUT_DIR demo_env, ''V1StGXR8_Z-my notes 100%.txt'']
     = ''/srv/app/converted/V1StGXR8_Z-my notes 100%.txt''"
  "encodeURIComponent ''my notes 100%.txt'' = ''my%20notes%20100%25.txt''"
proof -
  show x: "toLowerCase (extname (originalname spaced_txt)) = ''.txt''"
    by (simp add: spaced_txt_def extname_def last_component_def toLowerCase_def toLowerCase_char_def)
  show "out_name ''txt'' spaced_txt = ''my notes 100%.txt''"
    unfolding out_name_def x
    by (simp add: spaced_txt_def basename_def last_component_def suffix_to_prefix)
  show "path_join [OUT_DIR demo_env, ''my notes 100%.txt''] = ''/srv/app/converted/my notes 100%.txt''"
    "path_join [OUT_DIR demo_env, ''V1StGXR8_Z-my notes 100%.txt'']
       = ''/srv/app/converted/V1StGXR8_Z-my notes 100%.txt''"
    by (simp_all add: demo_OUT_DIR path_join_def path_normalize_def isAbsolute_def)
  show "encodeURIComponent ''my notes 100%.txt'' = ''my%20notes%20100%25.txt''"
    by code_simp
qed

lemma demo_spaced_loop:
  "convert_all demo_env ''txt'' (demo_disk, []) [spaced_txt, fake_pdf]
     = (demo_disk(''/srv/app/converted/my notes 100%.txt'' \<mapsto> [0x68, 0x69]),
        Inr [Out ''/srv/app/converted/my notes 100%.txt'' ''my notes 100%.txt'',
             Err ''Invalid PDF file: fake.pdf''])"
proof -
  let ?d = "demo_disk(''/srv/app/converted/my notes 100%.txt'' \<mapsto> [0x68, 0x69])"
  have c: "demo_disk (path spaced_txt) = Some [0x68, 0x69]" "(0::byte) \<notin> set [0x68, 0x69]"
    by (simp_all add: demo_disk_def spaced_txt_def)
  have a: "convert_one demo_env ''txt'' (demo_disk, []) spaced_txt
             = Inr (?d, [Out ''/srv/app/converted/my notes 100%.txt'' ''my notes 100%.txt''])"
    using convert_one_txt_to_txt [where f = spaced_txt and d = demo_disk and c = "[0x68, 0x69]"
        and e = demo_env and outs = "[]", OF demo_spaced(1) c]
    by (simp add: demo_spaced demo_codec)
  have p: "?d (path fake_pdf) = Some [0x68, 0x69]" "take 4 [0x68, 0x69] \<noteq> pdf_signature"
    by (simp_all add: demo_disk_def fake_pdf_def pdf_signature_def)
  have b: "convert_one demo_env ''txt''
             (?d, [Out ''/srv/app/converted/my notes 100%.txt'' ''my notes 100%.txt'']) fake_pdf
             = Inr (?d, [Out ''/srv/app/converted/my notes 100%.txt'' ''my notes 100%.txt'',
                         Err ''Invalid PDF file: fake.pdf''])"
    using convert_one_invalid_pdf [where f = fake_pdf and t = "''txt''" and d = ?d
        and c = "[0x68, 0x69]" and e = demo_env
        and outs = "[Out ''/srv/app/converted/my notes 100%.txt'' ''my notes 100%.txt'']",
        OF demo_extensions(3) _ p]
    by (simp add: fake_pdf_def)
  show ?thesis by (simp add: a b)
qed

lemma demo_same_base:
  "convert_all demo_env ''txt'' (demo_disk, []) [notes_txt, notes_pdf]
     = (demo_disk(''/srv/app/converted/notes.txt'' \<mapsto> [0x48, 0x65, 0x6C, 0x6C, 0x6F]),
        Inr [Out ''/srv/app/converted/notes.txt'' ''notes.txt'',
             Out ''/srv/app/converted/notes.txt'' ''notes.txt''])"
  by (simp add: demo_notes_step demo_notes_pdf_step)

lemma demo_env_facts:
  "isAbsolute (dirname demo_env)" "CHR ''/'' \<notin> set (nanoid demo_env)"
  "nanoid demo_env = ''V1StGXR8_Z''"
  by (simp_all add: demo_env_def isAbsolute_def)

lemma request_target_values:
  "request_target None = ''txt''" "request_target (Some ''txt'') = ''txt''"
  "request_target (Some ''TXT'') = ''txt''"
  by code_simp+

section \<open>The link of an answer and the request it makes\<close>

lemma hex_value_digit: "k < 16 \<Longrightarrow> hex_value (hex_digit k) = Some k"
proof -
  have "\<forall>k \<in> set [0..<16]. hex_value (hex_digit k) = Some k" by code_simp
  then show "k < 16 \<Longrightarrow> hex_value (hex_digit k) = Some k" by simp
qed

lemma hex_digit_escape: "hex_digit k \<noteq> CHR ''%''"
proof -
  have "k mod 16 < length ''0123456789ABCDEF''" by simp
  then have "hex_digit k \<in> set ''0123456789ABCDEF''"
    unfolding hex_digit_def by (rule nth_mem)
  then show ?thesis by auto
qed

lemma hex_byte_percent:
  assumes "n < 256"
  shows "hex_byte (hex_digit (n div 16)) (hex_digit n) = Some n"
proof -
  have a: "n div 16 < 16" using assms by simp
  have b: "hex_digit n = hex_digit (n mod 16)" by (simp add: hex_digit_def)
  have "hex_value (hex_digit (n mod 16)) = Some (n mod 16)" by (rule hex_value_digit) simp
  then show ?thesis using hex_value_digit [OF a] b by (simp add: hex_byte_def)
qed

lemma unreserved_escape: "unreserved c \<Longrightarrow> c \<noteq> CHR ''%''"
  by (auto simp: unreserved_def)

lemma unreserved_slash: "unreserved c \<Longrightarrow> c \<noteq> CHR ''/''"
  by (auto simp: unreserved_def)

lemma decode_escaped:
  "decodeURIComponent
     ((if unreserved c then [c]
       else if (of_char c :: nat) < 128 then percent (of_char c)
       else percent (192 + of_char c div 64) @ percent (128 + of_char c mod 64)) @ rest)
   = map_option ((#) c) (decodeURIComponent rest)"
proof -
  let ?n = "of_char c :: nat"
  have n: "?n < 256" by simp
  consider (plain) "unreserved c" | (low) "\<not> unreserved c" "?n < 128"
    | (high) "\<not> unreserved c" "\<not> ?n < 128" by blast
  then show ?thesis
  proof cases
    case plain
    then show ?thesis using unreserved_escape [OF plain] by simp
  next
    case low
    then show ?thesis using hex_byte_percent [OF n] by (simp add: percent_def)
  next
    case high
    let ?a = "192 + ?n div 64" and ?b = "128 + ?n mod 64"
    have "\<And>m::nat. \<not> m < 128 \<Longrightarrow> m < 256 \<Longrightarrow> m div 64 = 2 \<or> m div 64 = 3" by arith
    from this [OF high(2) n] have a: "?a < 256" "?a = 194 \<or> ?a = 195" by auto
    have b: "?b < 256" "128 \<le> ?b" "?b < 192" by auto
    have v: "(?a - 192) * 64 + (?b - 128) = ?n" by simp
    show ?thesis
      using high hex_byte_percent [OF a(1)] hex_byte_percent [OF b(1)] a(2) b(2,3) v
      by (auto simp add: percent_def)
  qed
qed

lemma decode_encode: "decodeURIComponent (encodeURIComponent s) = Some s"
proof (induction s)
  case Nil
  show ?case by (simp add: encodeURIComponent_def)
next
  case (Cons c s)
  have "encodeURIComponent (c # s)
          = (if unreserved c then [c]
             else if (of_char c :: nat) < 128 then percent (of_char c)
             else percent (192 + of_char c div 64) @ percent (128 + of_char c mod 64))
            @ encodeURIComponent s"
    by (simp add: encodeURIComponent_def Let_def)
  then show ?case using Cons decode_escaped [of c "encodeURIComponent s"] by simp
qed

lemma encode_plain: "CHR ''/'' \<notin> set (encodeURIComponent s)"
proof (induction s)
  case Nil
  show ?case by (simp add: encodeURIComponent_def)
next
  case (Cons c s)
  have "CHR ''/'' \<notin> set (if unreserved c then [c]
             else if (of_char c :: nat) < 128 then percent (of_char c)
             else percent (192 + of_char c div 64) @ percent (128 + of_char c mod 64))"
    using unreserved_slash [of c] hex_digit_plain [THEN not_sym]
    by (auto simp: percent_def)
  then show ?case using Cons by (simp add: encodeURIComponent_def Let_def)
qed

lemma encode_nonempty: "s \<noteq> [] \<Longrightarrow> encodeURIComponent s \<noteq> []"
  by (cases s) (auto simp: encodeURIComponent_def Let_def percent_def)

lemma encode_unreserved: "\<forall>c \<in> set s. unreserved c \<Longrightarrow> encodeURIComponent s = s"
  by (induction s) (auto simp: encodeURIComponent_def)

lemma decode_unreserved: "\<forall>c \<in> set s. unreserved c \<Longrightarrow> decodeURIComponent s = Some s"
  using decode_encode [of s] by (simp add: encode_unreserved)

lemma download_route_link:
  assumes "a \<noteq> []" "CHR ''/'' \<notin> set a" "b \<noteq> []" "CHR ''/'' \<notin> set b"
  shows "download_route (''/download/'' @ a @ ''/'' @ b) = Some (a, b)"
proof -
  have "split_slash (''/download/'' @ a @ ''/'' @ b) = [[], ''download'', a, b]"
    using split_slash_append [of "''/download/'' @ a" b] split_slash_append [of "''/download''" a]
      split_slash_plain [OF assms(2)] split_slash_plain [OF assms(4)]
    by simp
  moreover have "toLowerCase ''download'' = ''download''" by code_simp
  ultimately show ?thesis using assms by (simp add: download_route_def)
qed

lemma get_download_link:
  assumes "ident \<noteq> []" "\<forall>c \<in> set ident. unreserved c" "name \<noteq> []"
  shows "get_download e d (''/download/'' @ ident @ ''/'' @ encodeURIComponent name)
           = Some (download e d ident name)"
proof -
  have s: "CHR ''/'' \<notin> set ident" using assms(2) unreserved_slash by blast
  show ?thesis
    using download_route_link [OF assms(1) s encode_nonempty [OF assms(3)] encode_plain]
    by (simp add: get_download_def decode_param_def decode_encode decode_unreserved [OF assms(2)])
qed

section \<open>The branch for images\<close>

text \<open>
  For every upload with an image extension, under either target, the body of the loop
  records the failure and also writes and records an output made from the empty text.
\<close>

lemma image_branch_falls_through:
  assumes "isImageExt (toLowerCase (extname (originalname f)))"
  shows "convert_one e ''txt'' (d, outs) f
           = Inr (d(path_join [OUT_DIR e, out_name ''txt'' f] \<mapsto> utf8_encode []),
                  outs @ [Err (''OCR not enabled for images: '' @ originalname f),
                          Out (path_join [OUT_DIR e, out_name ''txt'' f]) (out_name ''txt'' f)])"
    and "convert_one e ''docx'' (d, outs) f
           = Inr (d(path_join [OUT_DIR e, out_name ''docx'' f] \<mapsto> txtToDocxBuffer e []),
                  outs @ [Err (''OCR not enabled for images: '' @ originalname f),
                          Out (path_join [OUT_DIR e, out_name ''docx'' f]) (out_name ''docx'' f)])"
proof -
  let ?ext = "toLowerCase (extname (originalname f))"
  have x: "?ext \<noteq> ''.txt''" "?ext \<noteq> ''.docx''" "?ext \<noteq> ''.pdf''"
    using assms by (auto simp: isImageExt_def)
  have s: "source_text e d label f ?ext outs
             = Inr (Text (outs @ [Err (''OCR not enabled for images: '' @ originalname f)]) [])"
    for label
    using assms x by (simp add: source_text_def)
  show "convert_one e ''txt'' (d, outs) f
           = Inr (d(path_join [OUT_DIR e, out_name ''txt'' f] \<mapsto> utf8_encode []),
                  outs @ [Err (''OCR not enabled for images: '' @ originalname f),
                          Out (path_join [OUT_DIR e, out_name ''txt'' f]) (out_name ''txt'' f)])"
    using x by (simp add: convert_one_to_txt s)
  show "convert_one e ''docx'' (d, outs) f
           = Inr (d(path_join [OUT_DIR e, out_name ''docx'' f] \<mapsto> txtToDocxBuffer e []),
                  outs @ [Err (''OCR not enabled for images: '' @ originalname f),
                          Out (path_join [OUT_DIR e, out_name ''docx'' f]) (out_name ''docx'' f)])"
    using x by (simp add: convert_one_to_docx s)
qed

section \<open>The claims\<close>

text \<open>
  C1. The claim is that an upload with an image extension never yields a converted output.
  The branch for images records the failure and then, unlike its neighbours, goes on to
  the encoding: the upload \<open>photo.png\<close> under the target \<open>txt\<close> leaves an empty
  \<open>photo.txt\<close> among the outputs, and a batch made of it alone is answered with a
  download link.
\<close>

theorem image_upload_yields_output:
  "convert_all demo_env ''txt'' (demo_disk, []) [picture_png]
     = (demo_disk(''/srv/app/converted/photo.txt'' \<mapsto> []),
        Inr [Err ''OCR not enabled for images: photo.png'',
             Out ''/srv/app/converted/photo.txt'' ''photo.txt''])
   \<and> fst (api_convert demo_env (Some ''txt'') [picture_png] \<lparr>disk = demo_disk, history = []\<rparr>)
       = JsonUrl ''/download/V1StGXR8_Z/photo.txt''
   \<and> disk (snd (api_convert demo_env (Some ''txt'') [picture_png]
                  \<lparr>disk = demo_disk, history = []\<rparr>))
         ''/srv/app/converted/V1StGXR8_Z-photo.txt'' = Some []"
proof -
  have t: "request_target (Some ''txt'') = ''txt''"
    by (simp add: request_target_def toLowerCase_def toLowerCase_char_def)
  have n: "nanoid demo_env = ''V1StGXR8_Z''" by (simp add: demo_env_def)
  have u: "encodeURIComponent ''photo.txt'' = ''photo.txt''"
    by (simp add: encodeURIComponent_def unreserved_def)
  have l: "convert_all demo_env ''txt'' (demo_disk, []) [picture_png]
     = (demo_disk(''/srv/app/converted/photo.txt'' \<mapsto> []),
        Inr [Err ''OCR not enabled for images: photo.png'',
             Out ''/srv/app/converted/photo.txt'' ''photo.txt''])"
    by (simp add: demo_png_step)
  have tb: "try_block demo_env ''txt'' [picture_png] \<lparr>disk = demo_disk, history = []\<rparr>
     = (\<lparr>disk = (demo_disk(''/srv/app/converted/photo.txt'' := None))
                 (''/srv/app/converted/V1StGXR8_Z-photo.txt'' \<mapsto> []),
         history = [\<lparr>entry_id = ''V1StGXR8_Z'', entry_name = ''photo.txt'', entry_count = 1,
                     entry_target = ''txt'', entry_time = date_now demo_env\<rparr>]\<rparr>,
        Inr (JsonUrl ''/download/V1StGXR8_Z/photo.txt''))"
    by (simp add: try_block_def l package_def rename_def n u demo_png_paths addHistory_def
          del: convert_all.simps)
  show ?thesis
    unfolding l api_convert_def Let_def t tb
    by (simp add: cleanup_uploads_def remove_all_apply picture_png_def)
qed

text \<open>
  C2. The claim is that a batch in which no file converts is answered with status 422 and
  the failure recorded for the first failing file. A parser that throws ends the loop and
  the handler: in the batch of \<open>binary.txt\<close> and \<open>plain.docx\<close> the first file is recorded
  as not a text file, the parser throws on the second, nothing is written, and the answer
  is status 500 with the fallback message.
\<close>

theorem zero_success_batch_answered_500_counterexample:
  "convert_one demo_env ''txt'' (demo_disk, []) binary_txt
     = Inr (demo_disk, [Err ''Not a text file: binary.txt''])
   \<and> convert_one demo_env ''txt'' (demo_disk, [Err ''Not a text file: binary.txt'']) text_as_docx
       = Inl ''not a zip file''
   \<and> convert_all demo_env ''txt'' (demo_disk, []) [binary_txt, text_as_docx]
       = (demo_disk, Inl ''not a zip file'')
   \<and> fst (api_convert demo_env (Some ''txt'') [binary_txt, text_as_docx]
             \<lparr>disk = demo_disk, history = []\<rparr>)
       = JsonError 500 ''Conversion failed''"
proof -
  have d: "demo_disk (path text_as_docx) = Some [0x68, 0x69]"
    by (simp add: demo_disk_def text_as_docx_def)
  note b = demo_docx_throws [where d = demo_disk and outs = "[Err ''Not a text file: binary.txt'']",
      OF d]
  have l: "convert_all demo_env ''txt'' (demo_disk, []) [binary_txt, text_as_docx]
             = (demo_disk, Inl ''not a zip file'')"
    by (simp add: demo_binary_step b)
  have "fst (api_convert demo_env (Some ''txt'') [binary_txt, text_as_docx]
               \<lparr>disk = demo_disk, history = []\<rparr>)
          = JsonError 500 ''Conversion failed''"
    using api_convert_thrown [of "[binary_txt, text_as_docx]" demo_env "Some ''txt''"
        "\<lparr>disk = demo_disk, history = []\<rparr>" demo_disk "''not a zip file''"] l
    by (simp add: request_target_values(2))
  then show ?thesis using demo_binary_step b l by simp
qed

text \<open>
  C2, as amended. A batch that is not empty, whose loop ends without an exception and
  without any output that has a path: the answer has status 422 and carries the failure
  recorded for the first file, which is not the fallback message. A batch whose loop is
  ended by an exception, thrown by a parser or by the reading of a file, is answered with
  status 500 and the fallback message \<open>Conversion failed\<close>, whatever was recorded before.
\<close>

theorem all_failed_reports_first_failure:
  assumes "files \<noteq> []"
  shows "(\<forall>d outs. convert_all e (request_target bt) (disk s, []) files = (d, Inr outs)
                   \<and> filter has_path outs = []
            \<longrightarrow> (\<exists>m. m \<noteq> [] \<and> m \<noteq> ''Conversion failed''
                     \<and> convert_one e (request_target bt) (disk s, []) (hd files)
                         = Inr (disk s, [Err m])
                     \<and> fst (api_convert e bt files s) = JsonError 422 m))
       \<and> (\<forall>d x. convert_all e (request_target bt) (disk s, []) files = (d, Inl x)
            \<longrightarrow> fst (api_convert e bt files s) = JsonError 500 ''Conversion failed'')"
proof -
  have failed: "\<exists>m. m \<noteq> [] \<and> m \<noteq> ''Conversion failed''
           \<and> convert_one e (request_target bt) (disk s, []) (hd files) = Inr (disk s, [Err m])
           \<and> fst (api_convert e bt files s) = JsonError 422 m"
    if l: "convert_all e (request_target bt) (disk s, []) files = (d, Inr outs)"
      and n: "filter has_path outs = []" for d outs
  proof -
    from assms obtain f rest where files: "files = f # rest" by (cases files) auto
    from l obtain d1 o1 where
      one: "convert_one e (request_target bt) (disk s, []) f = Inr (d1, o1)"
      and rest: "convert_all e (request_target bt) (d1, o1) rest = (d, Inr outs)"
      unfolding files by (auto split: sum.splits)
    from convert_one_step [OF one] obtain n1 where
      n1: "o1 = n1" "filter has_path n1 = [] \<longrightarrow>
             d1 = disk s \<and> (\<exists>m. m \<noteq> [] \<and> m \<noteq> ''Conversion failed'' \<and> n1 = [Err m])"
      by auto
    from convert_all_outputs [OF rest] obtain n2 where n2: "outs = o1 @ n2" by blast
    have "filter has_path n1 = []" using n n1(1) n2 by simp
    with n1 obtain m where
      m: "d1 = disk s" "m \<noteq> []" "m \<noteq> ''Conversion failed''" "o1 = [Err m]"
      by blast
    have "firstErr outs = m" using n2 m by (simp add: firstErr_Cons)
    then have "fst (api_convert e bt files s) = JsonError 422 m"
      using assms l n by (simp add: api_convert_response try_block_def package_none)
    then show ?thesis using one m files by auto
  qed
  have thrown: "fst (api_convert e bt files s) = JsonError 500 ''Conversion failed''"
    if "convert_all e (request_target bt) (disk s, []) files = (d, Inl x)" for d x
    using assms that by (simp add: api_convert_response try_block_def)
  show ?thesis
  proof (intro conjI allI impI)
    fix d outs
    assume "convert_all e (request_target bt) (disk s, []) files = (d, Inr outs)
              \<and> filter has_path outs = []"
    then show "\<exists>m. m \<noteq> [] \<and> m \<noteq> ''Conversion failed''
           \<and> convert_one e (request_target bt) (disk s, []) (hd files) = Inr (disk s, [Err m])
           \<and> fst (api_convert e bt files s) = JsonError 422 m"
      using failed by blast
  next
    fix d x
    assume "convert_all e (request_target bt) (disk s, []) files = (d, Inl x)"
    then show "fst (api_convert e bt files s) = JsonError 500 ''Conversion failed''"
      by (rule thrown)
  qed
qed

theorem all_failed_reports_first_failure_witness:
  "[binary_txt, fake_pdf] \<noteq> []
   \<and> convert_all demo_env (request_target (Some ''TXT'')) (demo_disk, []) [binary_txt, fake_pdf]
       = (demo_disk, Inr [Err ''Not a text file: binary.txt'', Err ''Invalid PDF file: fake.pdf''])
   \<and> filter has_path [Err ''Not a text file: binary.txt'', Err ''Invalid PDF file: fake.pdf''] = []
   \<and> fst (api_convert demo_env (Some ''TXT'') [binary_txt, fake_pdf]
             \<lparr>disk = demo_disk, history = []\<rparr>)
       = JsonError 422 ''Not a text file: binary.txt''
   \<and> [text_as_docx] \<noteq> []
   \<and> convert_all demo_env (request_target (Some ''TXT'')) (demo_disk, []) [text_as_docx]
       = (demo_disk, Inl ''not a zip file'')
   \<and> fst (api_convert demo_env (Some ''TXT'') [text_as_docx] \<lparr>disk = demo_disk, history = []\<rparr>)
       = JsonError 500 ''Conversion failed''"
proof -
  let ?s = "\<lparr>disk = demo_disk, history = []\<rparr>"
  have t: "request_target (Some ''TXT'') = ''txt''"
    by code_simp
  have l: "convert_all demo_env (request_target (Some ''TXT'')) (disk ?s, []) [binary_txt, fake_pdf]
       = (demo_disk, Inr [Err ''Not a text file: binary.txt'', Err ''Invalid PDF file: fake.pdf''])
       \<and> filter has_path [Err ''Not a text file: binary.txt'', Err ''Invalid PDF file: fake.pdf''] = []"
    unfolding t using demo_two_failures by simp
  have n: "[binary_txt, fake_pdf] \<noteq> []" "[text_as_docx] \<noteq> []" by simp_all
  have k: "convert_all demo_env (request_target (Some ''TXT'')) (disk ?s, []) [text_as_docx]
       = (demo_disk, Inl ''not a zip file'')"
    unfolding t using demo_thrown by simp
  from all_failed_reports_first_failure [OF n(1), of demo_env "Some ''TXT''" ?s,
      THEN conjunct1, rule_format, OF l]
  obtain m where
    m: "convert_one demo_env (request_target (Some ''TXT'')) (disk ?s, []) (hd [binary_txt, fake_pdf])
          = Inr (disk ?s, [Err m])"
      "fst (api_convert demo_env (Some ''TXT'') [binary_txt, fake_pdf] ?s) = JsonError 422 m"
    by blast
  from m(1) have "m = ''Not a text file: binary.txt''"
    unfolding t by (simp add: demo_binary_step)
  with m(2) have a: "fst (api_convert demo_env (Some ''TXT'') [binary_txt, fake_pdf] ?s)
                       = JsonError 422 ''Not a text file: binary.txt''"
    by simp
  from all_failed_reports_first_failure [OF n(2), of demo_env "Some ''TXT''" ?s,
      THEN conjunct2, rule_format, OF k]
  have b: "fst (api_convert demo_env (Some ''TXT'') [text_as_docx] ?s)
             = JsonError 500 ''Conversion failed''" .
  show ?thesis using n l k a b by simp
qed

text \<open>
  C3. The claim is that in a batch with exactly one successful conversion the output is
  renamed to the download identifier, a hyphen and its name, and the answer links to it.
  A parser that throws after that conversion ends the loop and the handler: in the batch
  of \<open>notes.txt\<close> and \<open>plain.docx\<close> the first file is converted, the parser throws on the
  second, the answer is status 500 with the fallback message, and \<open>notes.txt\<close> stays in
  the output directory under its own name, neither renamed nor linked.
\<close>

theorem single_success_lost_on_exception_counterexample:
  "convert_one demo_env ''txt'' (demo_disk, []) notes_txt
     = Inr (demo_disk(''/srv/app/converted/notes.txt'' \<mapsto> [0x68, 0x69]),
            [Out ''/srv/app/converted/notes.txt'' ''notes.txt''])
   \<and> convert_one demo_env ''txt''
         (demo_disk(''/srv/app/converted/notes.txt'' \<mapsto> [0x68, 0x69]),
          [Out ''/srv/app/converted/notes.txt'' ''notes.txt'']) text_as_docx
       = Inl ''not a zip file''
   \<and> fst (api_convert demo_env (Some ''txt'') [notes_txt, text_as_docx]
             \<lparr>disk = demo_disk, history = []\<rparr>)
       = JsonError 500 ''Conversion failed''
   \<and> disk (snd (api_convert demo_env (Some ''txt'') [notes_txt, text_as_docx]
                  \<lparr>disk = demo_disk, history = []\<rparr>))
         ''/srv/app/converted/notes.txt'' = Some [0x68, 0x69]
   \<and> disk (snd (api_convert demo_env (Some ''txt'') [notes_txt, text_as_docx]
                  \<lparr>disk = demo_disk, history = []\<rparr>))
         ''/srv/app/converted/V1StGXR8_Z-notes.txt'' = None"
proof -
  let ?d = "demo_disk(''/srv/app/converted/notes.txt'' \<mapsto> [0x68, 0x69])"
  let ?s = "\<lparr>disk = demo_disk, history = []\<rparr>"
  have d: "?d (path text_as_docx) = Some [0x68, 0x69]"
    by (simp add: demo_disk_def text_as_docx_def)
  note b = demo_docx_throws [where d = ?d
      and outs = "[Out ''/srv/app/converted/notes.txt'' ''notes.txt'']", OF d]
  have a: "api_convert demo_env (Some ''txt'') [notes_txt, text_as_docx] ?s
             = (JsonError 500 ''Conversion failed'',
                \<lparr>disk = cleanup_uploads [notes_txt, text_as_docx] ?d, history = []\<rparr>)"
    using demo_notes_then_thrown
    by (simp add: api_convert_def try_block_def request_target_values(2) Let_def
          del: convert_all.simps)
  have k: "disk (snd (api_convert demo_env (Some ''txt'') [notes_txt, text_as_docx] ?s))
             ''/srv/app/converted/notes.txt'' = Some [0x68, 0x69]"
    "disk (snd (api_convert demo_env (Some ''txt'') [notes_txt, text_as_docx] ?s))
             ''/srv/app/converted/V1StGXR8_Z-notes.txt'' = None"
    unfolding a
    by (simp_all add: cleanup_uploads_def remove_all_apply demo_files)
       (simp add: demo_disk_def)
  show ?thesis using demo_notes_step b a k by simp
qed

text \<open>
  C3, as amended. A batch without an image upload, whose loop ends without an exception
  and with exactly one output that has a path: the handler renames that file to the
  download identifier, a hyphen and its name in the output directory, answers with the
  link made of the identifier and the encoded name, and changes the disk in no other way
  before the uploads are removed; no archive is written. With an absolute script
  directory, an identifier of unreserved characters, names without separators and uploads
  stored elsewhere, the renamed file lies directly in the output directory and a request
  for the link of the answer is served with that file under its name. A batch whose loop
  is ended by an exception is answered with status 500 and the fallback message; the
  disk is then as the loop left it, without the uploads: nothing is renamed.
\<close>

theorem single_success_is_promoted_directly:
  assumes "\<forall>f \<in> set files. \<not> isImageExt (toLowerCase (extname (originalname f)))"
  shows "(\<forall>d outs one.
            convert_all e (request_target bt) (disk s, []) files = (d, Inr outs)
            \<and> filter has_path outs = [one]
          \<longrightarrow> (\<exists>c. d (item_path one) = Some c
                 \<and> api_convert e bt files s =
                     (JsonUrl (''/download/'' @ nanoid e @ ''/'' @ encodeURIComponent (item_name one)),
                      \<lparr>disk = cleanup_uploads files
                                (d(item_path one := None,
                                   path_join [OUT_DIR e, nanoid e @ ''-'' @ item_name one] \<mapsto> c)),
                        history = addHistory
                          \<lparr>entry_id = nanoid e, entry_name = item_name one, entry_count = 1,
                           entry_target = request_target bt, entry_time = date_now e\<rparr>
                          (history s)\<rparr>)
                 \<and> (isAbsolute (dirname e) \<and> nanoid e \<noteq> [] \<and> (\<forall>c \<in> set (nanoid e). unreserved c)
                      \<and> (\<forall>f \<in> set files. CHR ''/'' \<notin> set (originalname f)
                             \<and> path f \<noteq> OUT_DIR e @ ''/'' @ nanoid e @ ''-'' @ item_name one)
                    \<longrightarrow> path_join [OUT_DIR e, nanoid e @ ''-'' @ item_name one]
                          = OUT_DIR e @ ''/'' @ nanoid e @ ''-'' @ item_name one
                        \<and> get_download e (disk (snd (api_convert e bt files s)))
                            (''/download/'' @ nanoid e @ ''/'' @ encodeURIComponent (item_name one))
                          = Some (Download (OUT_DIR e @ ''/'' @ nanoid e @ ''-'' @ item_name one)
                                    (item_name one)))))
       \<and> (\<forall>d x. convert_all e (request_target bt) (disk s, []) files = (d, Inl x)
            \<longrightarrow> api_convert e bt files s
                  = (JsonError 500 ''Conversion failed'',
                     \<lparr>disk = cleanup_uploads files d, history = history s\<rparr>))"
proof -
  let ?t = "request_target bt"
  have promoted: "\<exists>c. d (item_path one) = Some c
                 \<and> api_convert e bt files s =
                     (JsonUrl (''/download/'' @ nanoid e @ ''/'' @ encodeURIComponent (item_name one)),
                      \<lparr>disk = cleanup_uploads files
                                (d(item_path one := None,
                                   path_join [OUT_DIR e, nanoid e @ ''-'' @ item_name one] \<mapsto> c)),
                        history = addHistory
                          \<lparr>entry_id = nanoid e, entry_name = item_name one, entry_count = 1,
                           entry_target = request_target bt, entry_time = date_now e\<rparr>
                          (history s)\<rparr>)
                 \<and> (isAbsolute (dirname e) \<and> nanoid e \<noteq> [] \<and> (\<forall>c \<in> set (nanoid e). unreserved c)
                      \<and> (\<forall>f \<in> set files. CHR ''/'' \<notin> set (originalname f)
                             \<and> path f \<noteq> OUT_DIR e @ ''/'' @ nanoid e @ ''-'' @ item_name one)
                    \<longrightarrow> path_join [OUT_DIR e, nanoid e @ ''-'' @ item_name one]
                          = OUT_DIR e @ ''/'' @ nanoid e @ ''-'' @ item_name one
                        \<and> get_download e (disk (snd (api_convert e bt files s)))
                            (''/download/'' @ nanoid e @ ''/'' @ encodeURIComponent (item_name one))
                          = Some (Download (OUT_DIR e @ ''/'' @ nanoid e @ ''-'' @ item_name one)
                                    (item_name one)))"
    if l: "convert_all e ?t (disk s, []) files = (d, Inr outs)"
      and o: "filter has_path outs = [one]" for d outs one
  proof -
    let ?seg = "nanoid e @ ''-'' @ item_name one"
    let ?url = "''/download/'' @ nanoid e @ ''/'' @ encodeURIComponent (item_name one)"
    from convert_all_outputs [OF l] have
      outs: "files = [] \<longrightarrow> outs = []"
        "\<forall>p n. Out p n \<in> set outs \<longrightarrow> d p \<noteq> None"
      using l by auto
    have files: "files \<noteq> []" using outs(1) o by auto
    have "one \<in> set (filter has_path outs)" using o by simp
    then have mem: "one \<in> set outs" "has_path one" by auto
    obtain p n where one: "one = Out p n" using mem(2) by (cases one) auto
    with mem outs(2) obtain c where c: "d (item_path one) = Some c" by fastforce
    have "package e ?t outs (s\<lparr>disk := d\<rparr>) =
       (\<lparr>disk = d(item_path one := None, path_join [OUT_DIR e, ?seg] \<mapsto> c),
         history = addHistory
           \<lparr>entry_id = nanoid e, entry_name = item_name one, entry_count = 1,
            entry_target = ?t, entry_time = date_now e\<rparr> (history s)\<rparr>,
        Inr (JsonUrl ?url))"
      using package_one [OF o, of "s\<lparr>disk := d\<rparr>" c e ?t] c by simp
    then have api: "api_convert e bt files s =
                 (JsonUrl ?url,
                  \<lparr>disk = cleanup_uploads files
                            (d(item_path one := None, path_join [OUT_DIR e, ?seg] \<mapsto> c)),
                    history = addHistory
                      \<lparr>entry_id = nanoid e, entry_name = item_name one, entry_count = 1,
                       entry_target = ?t, entry_time = date_now e\<rparr> (history s)\<rparr>)"
      using files l by (simp add: api_convert_def try_block_def Let_def)
    have link: "path_join [OUT_DIR e, ?seg] = OUT_DIR e @ ''/'' @ ?seg
            \<and> get_download e (disk (snd (api_convert e bt files s))) ?url
                = Some (Download (OUT_DIR e @ ''/'' @ ?seg) (item_name one))"
      if h: "isAbsolute (dirname e)" "nanoid e \<noteq> []" "\<forall>c \<in> set (nanoid e). unreserved c"
        "\<forall>f \<in> set files. CHR ''/'' \<notin> set (originalname f) \<and> path f \<noteq> OUT_DIR e @ ''/'' @ ?seg"
    proof -
      have plain: "CHR ''/'' \<notin> set (nanoid e)" using h(3) unreserved_slash by blast
      from convert_all_names [OF l] mem(1) one obtain f where
        f: "f \<in> set files" "n = out_name ?t f" "?t = ''txt'' \<or> ?t = ''docx''"
        by auto
      have seg: "normal_segment ?seg"
        using out_name_normal(2) [OF _ f(3), of f "nanoid e"] plain h(4) f(1,2) one by simp
      have name: "item_name one \<noteq> []"
        using out_name_normal(1) [OF _ f(3), of f] h(4) f(1,2) one
        by (simp add: normal_segment_def)
      have j: "path_join [OUT_DIR e, ?seg] = OUT_DIR e @ ''/'' @ ?seg"
        by (rule OUT_DIR_join [OF h(1) seg])
      have "OUT_DIR e @ ''/'' @ ?seg \<notin> set (map path (filter (\<lambda>f. path f \<noteq> []) files))"
        using h(4) by auto
      then have "disk (snd (api_convert e bt files s)) (OUT_DIR e @ ''/'' @ ?seg) = Some c"
        unfolding api j cleanup_uploads_def remove_all_apply by simp
      then have "disk (snd (api_convert e bt files s)) (OUT_DIR e @ ''/'' @ ?seg) \<noteq> None"
        by simp
      from download_artifact [where dk = "disk (snd (api_convert e bt files s))"
          and ident = "nanoid e" and name = "item_name one", OF h(1) seg this]
      have "download e (disk (snd (api_convert e bt files s))) (nanoid e) (item_name one)
              = Download (OUT_DIR e @ ''/'' @ ?seg) (item_name one)" .
      then have "get_download e (disk (snd (api_convert e bt files s))) ?url
                   = Some (Download (OUT_DIR e @ ''/'' @ ?seg) (item_name one))"
        using get_download_link [OF h(2,3) name, of e "disk (snd (api_convert e bt files s))"]
        by simp
      with j show ?thesis by simp
    qed
    show ?thesis using c api link by blast
  qed
  have thrown: "api_convert e bt files s
                  = (JsonError 500 ''Conversion failed'',
                     \<lparr>disk = cleanup_uploads files d, history = history s\<rparr>)"
    if l: "convert_all e ?t (disk s, []) files = (d, Inl x)" for d x
  proof -
    have "files \<noteq> []" using l by auto
    then show ?thesis using l by (simp add: api_convert_def try_block_def Let_def)
  qed
  show ?thesis
  proof (intro conjI allI impI)
    fix d outs one
    assume "convert_all e ?t (disk s, []) files = (d, Inr outs) \<and> filter has_path outs = [one]"
    then have l: "convert_all e ?t (disk s, []) files = (d, Inr outs)"
      and o: "filter has_path outs = [one]" by simp_all
    show "\<exists>c. d (item_path one) = Some c
                 \<and> api_convert e bt files s =
                     (JsonUrl (''/download/'' @ nanoid e @ ''/'' @ encodeURIComponent (item_name one)),
                      \<lparr>disk = cleanup_uploads files
                                (d(item_path one := None,
                                   path_join [OUT_DIR e, nanoid e @ ''-'' @ item_name one] \<mapsto> c)),
                        history = addHistory
                          \<lparr>entry_id = nanoid e, entry_name = item_name one, entry_count = 1,
                           entry_target = request_target bt, entry_time = date_now e\<rparr>
                          (history s)\<rparr>)
                 \<and> (isAbsolute (dirname e) \<and> nanoid e \<noteq> [] \<and> (\<forall>c \<in> set (nanoid e). unreserved c)
                      \<and> (\<forall>f \<in> set files. CHR ''/'' \<notin> set (originalname f)
                             \<and> path f \<noteq> OUT_DIR e @ ''/'' @ nanoid e @ ''-'' @ item_name one)
                    \<longrightarrow> path_join [OUT_DIR e, nanoid e @ ''-'' @ item_name one]
                          = OUT_DIR e @ ''/'' @ nanoid e @ ''-'' @ item_name one
                        \<and> get_download e (disk (snd (api_convert e bt files s)))
                            (''/download/'' @ nanoid e @ ''/'' @ encodeURIComponent (item_name one))
                          = Some (Download (OUT_DIR e @ ''/'' @ nanoid e @ ''-'' @ item_name one)
                                    (item_name one)))"
      by (rule promoted [OF l o])
  next
    fix d x
    assume "convert_all e ?t (disk s, []) files = (d, Inl x)"
    then show "api_convert e bt files s
                  = (JsonError 500 ''Conversion failed'',
                     \<lparr>disk = cleanup_uploads files d, history = history s\<rparr>)"
      by (rule thrown)
  qed
qed

theorem single_success_is_promoted_directly_witness:
  "\<not> isImageExt (toLowerCase (extname (originalname spaced_txt)))
   \<and> \<not> isImageExt (toLowerCase (extname (originalname fake_pdf)))
   \<and> convert_all demo_env (request_target None) (demo_disk, []) [spaced_txt, fake_pdf]
     = (demo_disk(''/srv/app/converted/my notes 100%.txt'' \<mapsto> [0x68, 0x69]),
        Inr [Out ''/srv/app/converted/my notes 100%.txt'' ''my notes 100%.txt'',
             Err ''Invalid PDF file: fake.pdf''])
   \<and> filter has_path [Out ''/srv/app/converted/my notes 100%.txt'' ''my notes 100%.txt'',
                        Err ''Invalid PDF file: fake.pdf'']
       = [Out ''/srv/app/converted/my notes 100%.txt'' ''my notes 100%.txt'']
   \<and> isAbsolute (dirname demo_env) \<and> nanoid demo_env \<noteq> []
   \<and> list_all unreserved (nanoid demo_env)
   \<and> CHR ''/'' \<notin> set (originalname spaced_txt) \<and> CHR ''/'' \<notin> set (originalname fake_pdf)
   \<and> path spaced_txt \<noteq> ''/srv/app/converted/V1StGXR8_Z-my notes 100%.txt''
   \<and> path fake_pdf \<noteq> ''/srv/app/converted/V1StGXR8_Z-my notes 100%.txt''
   \<and> fst (api_convert demo_env None [spaced_txt, fake_pdf] \<lparr>disk = demo_disk, history = []\<rparr>)
       = JsonUrl ''/download/V1StGXR8_Z/my%20notes%20100%25.txt''
   \<and> disk (snd (api_convert demo_env None [spaced_txt, fake_pdf]
                  \<lparr>disk = demo_disk, history = []\<rparr>))
         ''/srv/app/converted/V1StGXR8_Z-my notes 100%.txt'' = Some [0x68, 0x69]
   \<and> disk (snd (api_convert demo_env None [spaced_txt, fake_pdf]
                  \<lparr>disk = demo_disk, history = []\<rparr>))
         ''/srv/app/converted/my notes 100%.txt'' = None
   \<and> get_download demo_env
         (disk (snd (api_convert demo_env None [spaced_txt, fake_pdf]
                       \<lparr>disk = demo_disk, history = []\<rparr>)))
         ''/download/V1StGXR8_Z/my%20notes%20100%25.txt''
       = Some (Download ''/srv/app/converted/V1StGXR8_Z-my notes 100%.txt'' ''my notes 100%.txt'')
   \<and> \<not> isImageExt (toLowerCase (extname (originalname notes_txt)))
   \<and> \<not> isImageExt (toLowerCase (extname (originalname text_as_docx)))
   \<and> convert_all demo_env (request_target None) (demo_disk, []) [notes_txt, text_as_docx]
       = (demo_disk(''/srv/app/converted/notes.txt'' \<mapsto> [0x68, 0x69]), Inl ''not a zip file'')
   \<and> api_convert demo_env None [notes_txt, text_as_docx] \<lparr>disk = demo_disk, history = []\<rparr>
       = (JsonError 500 ''Conversion failed'',
          \<lparr>disk = cleanup_uploads [notes_txt, text_as_docx]
                    (demo_disk(''/srv/app/converted/notes.txt'' \<mapsto> [0x68, 0x69])),
            history = []\<rparr>)"
proof -
  have i2: "\<not> isImageExt (toLowerCase (extname (originalname notes_txt)))"
    "\<not> isImageExt (toLowerCase (extname (originalname text_as_docx)))"
    by (simp_all add: demo_extensions(1) ext_docx [OF demo_filter(6) demo_suffix(6)] isImageExt_def)
  then have img2: "\<forall>f \<in> set [notes_txt, text_as_docx].
                     \<not> isImageExt (toLowerCase (extname (originalname f)))"
    by simp
  have l2: "convert_all demo_env (request_target None)
              (disk \<lparr>disk = demo_disk, history = []\<rparr>, []) [notes_txt, text_as_docx]
       = (demo_disk(''/srv/app/converted/notes.txt'' \<mapsto> [0x68, 0x69]), Inl ''not a zip file'')"
    unfolding request_target_values using demo_notes_then_thrown by simp
  from single_success_is_promoted_directly [OF img2, of demo_env None
      "\<lparr>disk = demo_disk, history = []\<rparr>", THEN conjunct2, rule_format, OF l2]
  have thrown: "api_convert demo_env None [notes_txt, text_as_docx] \<lparr>disk = demo_disk, history = []\<rparr>
       = (JsonError 500 ''Conversion failed'',
          \<lparr>disk = cleanup_uploads [notes_txt, text_as_docx]
                    (demo_disk(''/srv/app/converted/notes.txt'' \<mapsto> [0x68, 0x69])),
            history = []\<rparr>)"
    by simp
  let ?d = "demo_disk(''/srv/app/converted/my notes 100%.txt'' \<mapsto> [0x68, 0x69])"
  let ?one = "Out ''/srv/app/converted/my notes 100%.txt'' ''my notes 100%.txt''"
  let ?outs = "[?one, Err ''Invalid PDF file: fake.pdf'']"
  let ?s = "\<lparr>disk = demo_disk, history = []\<rparr>"
  let ?m = "''/srv/app/converted/V1StGXR8_Z-my notes 100%.txt''"
  let ?api = "api_convert demo_env None [spaced_txt, fake_pdf] ?s"
  have i: "\<not> isImageExt (toLowerCase (extname (originalname spaced_txt)))"
    "\<not> isImageExt (toLowerCase (extname (originalname fake_pdf)))"
    by (simp_all add: demo_spaced(1) demo_extensions(3) isImageExt_def)
  then have img: "\<forall>f \<in> set [spaced_txt, fake_pdf].
                    \<not> isImageExt (toLowerCase (extname (originalname f)))"
    by simp
  have l: "convert_all demo_env (request_target None) (disk ?s, []) [spaced_txt, fake_pdf]
             = (?d, Inr ?outs) \<and> filter has_path ?outs = [?one]"
    unfolding request_target_values using demo_spaced_loop by simp
  have n: "nanoid demo_env \<noteq> []" "list_all unreserved (nanoid demo_env)"
    unfolding demo_env_facts(3) by code_simp+
  have h: "CHR ''/'' \<notin> set (originalname spaced_txt)" "CHR ''/'' \<notin> set (originalname fake_pdf)"
    "path spaced_txt \<noteq> ?m" "path fake_pdf \<noteq> ?m"
    by (simp_all add: spaced_txt_def fake_pdf_def)
  have m: "OUT_DIR demo_env @ ''/'' @ nanoid demo_env @ ''-'' @ item_name ?one = ?m"
    by (simp add: demo_OUT_DIR demo_env_facts(3))
  from single_success_is_promoted_directly [OF img, of demo_env None ?s,
      THEN conjunct1, rule_format, OF l]
  obtain c where
    c: "?d (item_path ?one) = Some c"
    and r: "?api =
       (JsonUrl (''/download/'' @ nanoid demo_env @ ''/'' @ encodeURIComponent (item_name ?one)),
        \<lparr>disk = cleanup_uploads [spaced_txt, fake_pdf]
                  (?d(item_path ?one := None,
                      path_join [OUT_DIR demo_env, nanoid demo_env @ ''-'' @ item_name ?one] \<mapsto> c)),
          history = addHistory
            \<lparr>entry_id = nanoid demo_env, entry_name = item_name ?one, entry_count = 1,
             entry_target = request_target None, entry_time = date_now demo_env\<rparr>
            (history ?s)\<rparr>)"
    and k: "isAbsolute (dirname demo_env) \<and> nanoid demo_env \<noteq> []
              \<and> (\<forall>c \<in> set (nanoid demo_env). unreserved c)
              \<and> (\<forall>f \<in> set [spaced_txt, fake_pdf]. CHR ''/'' \<notin> set (originalname f)
                     \<and> path f \<noteq> OUT_DIR demo_env @ ''/'' @ nanoid demo_env @ ''-'' @ item_name ?one)
            \<longrightarrow> path_join [OUT_DIR demo_env, nanoid demo_env @ ''-'' @ item_name ?one]
                  = OUT_DIR demo_env @ ''/'' @ nanoid demo_env @ ''-'' @ item_name ?one
                \<and> get_download demo_env (disk (snd ?api))
                    (''/download/'' @ nanoid demo_env @ ''/'' @ encodeURIComponent (item_name ?one))
                  = Some (Download (OUT_DIR demo_env @ ''/'' @ nanoid demo_env @ ''-'' @ item_name ?one)
                            (item_name ?one))"
    by blast
  from c have c': "c = [0x68, 0x69]" by simp
  have url: "''/download/'' @ nanoid demo_env @ ''/'' @ encodeURIComponent (item_name ?one)
               = ''/download/V1StGXR8_Z/my%20notes%20100%25.txt''"
    by (simp add: demo_env_facts(3) demo_spaced(5))
  from k h n demo_env_facts(1) have
    j: "path_join [OUT_DIR demo_env, nanoid demo_env @ ''-'' @ item_name ?one] = ?m"
    and dl: "get_download demo_env (disk (snd ?api)) ''/download/V1StGXR8_Z/my%20notes%20100%25.txt''
               = Some (Download ?m ''my notes 100%.txt'')"
    unfolding m url by (simp_all add: list_all_iff)
  have resp: "fst ?api = JsonUrl ''/download/V1StGXR8_Z/my%20notes%20100%25.txt''"
    unfolding r using url by simp
  have dk: "disk (snd ?api) ?m = Some [0x68, 0x69]"
    "disk (snd ?api) ''/srv/app/converted/my notes 100%.txt'' = None"
    unfolding r j c'
    by (simp_all add: cleanup_uploads_def remove_all_apply spaced_txt_def fake_pdf_def)
  show ?thesis
    using i l n demo_env_facts(1) h resp dk dl i2 l2 thrown by simp
qed

text \<open>
  C4. A download request whose resolved path does not lie in the output directory is
  answered with status 400 and \<open>Bad path\<close>, whatever the disk holds: the answer does not
  depend on the existence of any file.
\<close>

theorem escaping_download_is_rejected:
  assumes "\<not> inside_dir (path_resolve (cwd e) [OUT_DIR e])
                        (path_resolve (cwd e) [OUT_DIR e, ident @ ''-'' @ name])"
  shows "download e d ident name = SendText 400 ''Bad path''"
  using assms string_prefix_inside
  unfolding download_def Let_def by fastforce

theorem escaping_download_is_rejected_witness:
  "path_resolve (cwd demo_env) [OUT_DIR demo_env, ''x'' @ ''-'' @ ''/../../etc/passwd'']
     = ''/srv/app/etc/passwd''
   \<and> demo_disk ''/srv/app/etc/passwd'' \<noteq> None
   \<and> \<not> inside_dir (path_resolve (cwd demo_env) [OUT_DIR demo_env])
                  (path_resolve (cwd demo_env) [OUT_DIR demo_env, ''x'' @ ''-'' @ ''/../../etc/passwd''])
   \<and> download demo_env demo_disk ''x'' ''/../../etc/passwd'' = SendText 400 ''Bad path''"
proof -
  have c: "path_resolve (cwd demo_env) [OUT_DIR demo_env, ''x'' @ ''-'' @ ''/../../etc/passwd'']
     = ''/srv/app/etc/passwd''"
    by (simp add: demo_OUT_DIR path_resolve_def isAbsolute_def)
  have b: "path_resolve (cwd demo_env) [OUT_DIR demo_env] = ''/srv/app/converted''"
    by (simp add: demo_OUT_DIR path_resolve_def isAbsolute_def)
  have n: "\<not> inside_dir (path_resolve (cwd demo_env) [OUT_DIR demo_env])
                  (path_resolve (cwd demo_env) [OUT_DIR demo_env, ''x'' @ ''-'' @ ''/../../etc/passwd''])"
    unfolding b c by (simp add: inside_dir_def path_segments_def)
  show ?thesis
    using escaping_download_is_rejected [OF n, of demo_disk] n c
    by (simp add: demo_disk_def)
qed

text \<open>
  C5. An upload accepted by the filter whose name ends in \<open>.txt\<close> and whose content holds
  a zero byte is recorded with the failure \<open>Not a text file\<close>: the body of the loop leaves
  the disk as it was and appends that one failure, whatever the target is and whatever the
  parsers would do; in a batch the loop goes on with the remaining files from there.
\<close>

theorem txt_with_null_byte_is_rejected:
  assumes "fileFilter f" and "suffix ''.txt'' (originalname f)"
    and "d (path f) = Some c" and "0 \<in> set c"
  shows "convert_one e target (d, outs) f
           = Inr (d, outs @ [Err (''Not a text file: '' @ originalname f)])
         \<and> (\<forall>st pre post. convert_all e target st pre = (d, Inr outs) \<longrightarrow>
              convert_all e target st (pre @ f # post)
                = convert_all e target (d, outs @ [Err (''Not a text file: '' @ originalname f)]) post)"
proof -
  have one: "convert_one e target (d, outs) f
           = Inr (d, outs @ [Err (''Not a text file: '' @ originalname f)])"
    using assms(3,4) ext_txt [OF assms(1,2)]
    by (simp add: convert_one_def looksLikeText_def readFile_def)
  show ?thesis
    using one by (simp add: convert_all_append)
qed

theorem txt_with_null_byte_is_rejected_witness:
  "fileFilter binary_txt \<and> suffix ''.txt'' (originalname binary_txt)
   \<and> demo_disk (path binary_txt) = Some [0x68, 0x00] \<and> (0::byte) \<in> set [0x68, 0x00]
   \<and> convert_one demo_env ''pptx'' (demo_disk, []) binary_txt
        = Inr (demo_disk, [Err ''Not a text file: binary.txt''])"
proof -
  have h: "demo_disk (path binary_txt) = Some [0x68, 0x00]" "(0::byte) \<in> set [0x68, 0x00]"
    by (simp_all add: demo_disk_def binary_txt_def)
  show ?thesis
    using txt_with_null_byte_is_rejected [where f = binary_txt and d = demo_disk and c = "[0x68, 0x00]"
        and e = demo_env and target = "''pptx''" and outs = "[]"]
      demo_filter(2) demo_suffix(2) h
    by (simp add: binary_txt_def)
qed

text \<open>
  C6. An upload accepted by the filter whose name ends in \<open>.pdf\<close>, under the target
  \<open>txt\<close> or \<open>docx\<close>: when its first four bytes are not \<open>%PDF\<close> it is recorded with
  \<open>Invalid PDF file\<close>; when they are and the parser returns a text that is empty after
  trimming, it is recorded with \<open>No text extracted (likely scanned PDF)\<close>; the two
  messages differ.
\<close>

theorem pdf_diagnostics_are_distinct:
  assumes "fileFilter f" and "suffix ''.pdf'' (originalname f)"
    and "target = ''txt'' \<or> target = ''docx''"
    and "d (path f) = Some c"
  shows "(take 4 c \<noteq> pdf_signature \<longrightarrow>
            convert_one e target (d, outs) f
              = Inr (d, outs @ [Err (''Invalid PDF file: '' @ originalname f)]))
       \<and> (take 4 c = pdf_signature \<longrightarrow> (\<forall>t. pdfParse e c = Inr t \<longrightarrow> trim t = [] \<longrightarrow>
            convert_one e target (d, outs) f
              = Inr (d, outs @ [Err (''No text extracted (likely scanned PDF): '' @ originalname f)])))
       \<and> ''Invalid PDF file: '' @ originalname f
            \<noteq> ''No text extracted (likely scanned PDF): '' @ originalname f"
  using assms(3,4) ext_pdf [OF assms(1,2)]
  by (auto simp: convert_one_def source_text_def isPdfFile_content readFile_def toTxtFromPdf_def)

theorem pdf_diagnostics_are_distinct_witness:
  "fileFilter fake_pdf \<and> suffix ''.pdf'' (originalname fake_pdf)
   \<and> demo_disk (path fake_pdf) = Some [0x68, 0x69] \<and> take 4 [0x68, 0x69] \<noteq> pdf_signature
   \<and> convert_one demo_env ''txt'' (demo_disk, []) fake_pdf
        = Inr (demo_disk, [Err ''Invalid PDF file: fake.pdf''])
   \<and> fileFilter scanned_pdf \<and> suffix ''.pdf'' (originalname scanned_pdf)
   \<and> demo_disk (path scanned_pdf) = Some pdf_signature \<and> take 4 pdf_signature = pdf_signature
   \<and> pdfParse demo_env pdf_signature = Inr [0x20, 0x20] \<and> trim [0x20, 0x20] = []
   \<and> convert_one demo_env ''docx'' (demo_disk, []) scanned_pdf
        = Inr (demo_disk, [Err ''No text extracted (likely scanned PDF): scan.pdf''])"
proof -
  have a: "demo_disk (path fake_pdf) = Some [0x68, 0x69]" "take 4 [0x68, 0x69] \<noteq> pdf_signature"
    by (simp_all add: demo_disk_def fake_pdf_def pdf_signature_def)
  have b: "demo_disk (path scanned_pdf) = Some pdf_signature" "take 4 pdf_signature = pdf_signature"
    "pdfParse demo_env pdf_signature = Inr [0x20, 0x20]" "trim [0x20, 0x20] = []"
    by (simp_all add: demo_disk_def scanned_pdf_def pdf_signature_def demo_env_def trim_def
          isWhiteSpace_def)
  have t: "''txt'' = ''txt'' \<or> ''txt'' = ''docx''" "''docx'' = ''txt'' \<or> ''docx'' = ''docx''"
    by simp_all
  show ?thesis
    using pdf_diagnostics_are_distinct [where f = fake_pdf and d = demo_disk and c = "[0x68, 0x69]"
        and e = demo_env and target = "''txt''" and outs = "[]"]
      pdf_diagnostics_are_distinct [where f = scanned_pdf and d = demo_disk and c = pdf_signature
        and e = demo_env and target = "''docx''" and outs = "[]"]
      demo_filter demo_suffix a b
    by (simp add: fake_pdf_def scanned_pdf_def)
qed

text \<open>
  C7. The claim is that a \<open>.docx\<close> upload goes on to extraction only when its detected
  MIME type is \<open>application/zip\<close> or the OOXML type. An upload for which no type is
  detected passes the check too: here extraction is attempted and throws.
\<close>

theorem docx_without_detected_mime_counterexample:
  "fileFilter text_as_docx \<and> suffix ''.docx'' (originalname text_as_docx)
   \<and> detectMime demo_env demo_disk (path text_as_docx) \<noteq> Some ''application/zip''
   \<and> detectMime demo_env demo_disk (path text_as_docx)
        \<noteq> Some ''application/vnd.openxmlformats-officedocument.wordprocessingml.document''
   \<and> convert_one demo_env ''txt'' (demo_disk, []) text_as_docx
        \<noteq> Inr (demo_disk, [Err ''Not a DOCX file: plain.docx''])
   \<and> convert_one demo_env ''txt'' (demo_disk, []) text_as_docx = Inl ''not a zip file''"
proof -
  have c: "convert_one demo_env ''txt'' (demo_disk, []) text_as_docx = Inl ''not a zip file''"
    using ext_docx [OF demo_filter(6) demo_suffix(6)]
    by (simp add: convert_one_def demo_detect mime_rejected_def source_text_def
          toTxtFromDocx_def readFile_def)
       (simp add: text_as_docx_def demo_disk_def demo_env_def)
  show ?thesis
    using demo_filter(6) demo_suffix(6) by (simp add: c demo_detect)
qed

text \<open>
  C7, as amended. An accepted \<open>.docx\<close> upload is recorded with \<open>Not a DOCX file\<close>,
  disk untouched and nothing extracted, when a MIME type is detected that is neither
  \<open>application/zip\<close> nor the OOXML type, and only then. When the type is one of the two
  or none is detected, the upload passes the check: under the target \<open>txt\<close> or \<open>docx\<close>
  the result is that of the extraction, the exception of the parser or the output written
  from the extracted text; under any other target the upload is recorded with
  \<open>Unsupported target\<close> and nothing is extracted.
\<close>

theorem docx_rejected_on_detected_foreign_mime:
  assumes "fileFilter f" and "suffix ''.docx'' (originalname f)"
  shows "(\<forall>t. detectMime e d (path f) = Some t \<and> t \<noteq> [] \<and> t \<noteq> ''application/zip''
              \<and> t \<noteq> ''application/vnd.openxmlformats-officedocument.wordprocessingml.document''
            \<longrightarrow> convert_one e target (d, outs) f
                  = Inr (d, outs @ [Err (''Not a DOCX file: '' @ originalname f)]))
       \<and> (detectMime e d (path f)
             \<in> {None, Some [], Some ''application/zip'',
                 Some ''application/vnd.openxmlformats-officedocument.wordprocessingml.document''}
            \<longrightarrow> convert_one e ''txt'' (d, outs) f
                  = (case toTxtFromDocx e d (path f) of
                       Inl x \<Rightarrow> Inl x
                     | Inr text \<Rightarrow>
                         Inr (d(path_join [OUT_DIR e, basename (originalname f) ''.docx'' @ ''.txt'']
                                  \<mapsto> utf8_encode text),
                              outs @ [Out (path_join [OUT_DIR e,
                                             basename (originalname f) ''.docx'' @ ''.txt''])
                                          (basename (originalname f) ''.docx'' @ ''.txt'')]))
              \<and> convert_one e ''docx'' (d, outs) f
                  = (case toTxtFromDocx e d (path f) of
                       Inl x \<Rightarrow> Inl x
                     | Inr text \<Rightarrow>
                         Inr (d(path_join [OUT_DIR e, basename (originalname f) ''.docx'' @ ''.docx'']
                                  \<mapsto> txtToDocxBuffer e text),
                              outs @ [Out (path_join [OUT_DIR e,
                                             basename (originalname f) ''.docx'' @ ''.docx''])
                                          (basename (originalname f) ''.docx'' @ ''.docx'')]))
              \<and> (target \<noteq> ''txt'' \<and> target \<noteq> ''docx''
                    \<longrightarrow> convert_one e target (d, outs) f
                          = Inr (d, outs @ [Err (''Unsupported target: '' @ target)]))
              \<and> convert_one e target (d, outs) f
                  \<noteq> Inr (d, outs @ [Err (''Not a DOCX file: '' @ originalname f)]))"
proof -
  note x = ext_docx [OF assms]
  have rejected: "convert_one e target (d, outs) f
                    = Inr (d, outs @ [Err (''Not a DOCX file: '' @ originalname f)])"
    if "detectMime e d (path f) = Some t" "t \<noteq> []" "t \<noteq> ''application/zip''"
      "t \<noteq> ''application/vnd.openxmlformats-officedocument.wordprocessingml.document''" for t
    using that x by (simp add: convert_one_def mime_rejected_def)
  have passed: "\<not> mime_rejected (detectMime e d (path f))"
    if "detectMime e d (path f)
          \<in> {None, Some [], Some ''application/zip'',
              Some ''application/vnd.openxmlformats-officedocument.wordprocessingml.document''}"
    using that by (auto simp: mime_rejected_def)
  have to_txt: "convert_one e ''txt'' (d, outs) f
                  = (case toTxtFromDocx e d (path f) of
                       Inl x \<Rightarrow> Inl x
                     | Inr text \<Rightarrow>
                         Inr (d(path_join [OUT_DIR e, basename (originalname f) ''.docx'' @ ''.txt'']
                                  \<mapsto> utf8_encode text),
                              outs @ [Out (path_join [OUT_DIR e,
                                             basename (originalname f) ''.docx'' @ ''.txt''])
                                          (basename (originalname f) ''.docx'' @ ''.txt'')]))"
    if "\<not> mime_rejected (detectMime e d (path f))"
    using that x by (simp add: convert_one_def source_text_def Let_def split: sum.splits)
  have to_docx: "convert_one e ''docx'' (d, outs) f
                  = (case toTxtFromDocx e d (path f) of
                       Inl x \<Rightarrow> Inl x
                     | Inr text \<Rightarrow>
                         Inr (d(path_join [OUT_DIR e, basename (originalname f) ''.docx'' @ ''.docx'']
                                  \<mapsto> txtToDocxBuffer e text),
                              outs @ [Out (path_join [OUT_DIR e,
                                             basename (originalname f) ''.docx'' @ ''.docx''])
                                          (basename (originalname f) ''.docx'' @ ''.docx'')]))"
    if "\<not> mime_rejected (detectMime e d (path f))"
    using that x by (simp add: convert_one_def source_text_def Let_def split: sum.splits)
  have other: "convert_one e target (d, outs) f
                 = Inr (d, outs @ [Err (''Unsupported target: '' @ target)])"
    if "\<not> mime_rejected (detectMime e d (path f))" "target \<noteq> ''txt''" "target \<noteq> ''docx''"
    using that x by (simp add: convert_one_def)
  have differs: "convert_one e target (d, outs) f
                   \<noteq> Inr (d, outs @ [Err (''Not a DOCX file: '' @ originalname f)])"
    if p: "\<not> mime_rejected (detectMime e d (path f))"
  proof (cases "target = ''txt''")
    case True
    then show ?thesis using to_txt [OF p] by (simp split: sum.splits)
  next
    case no_txt: False
    show ?thesis
    proof (cases "target = ''docx''")
      case True
      then show ?thesis using to_docx [OF p] by (simp split: sum.splits)
    next
      case False
      then show ?thesis using other [OF p no_txt] by simp
    qed
  qed
  show ?thesis
    using rejected passed to_txt to_docx other differs by blast
qed

theorem docx_rejected_on_detected_foreign_mime_witness:
  "fileFilter pdf_as_docx \<and> suffix ''.docx'' (originalname pdf_as_docx)
   \<and> detectMime demo_env demo_disk (path pdf_as_docx) = Some ''application/pdf''
   \<and> convert_one demo_env ''txt'' (demo_disk, []) pdf_as_docx
        = Inr (demo_disk, [Err ''Not a DOCX file: report.docx''])
   \<and> fileFilter text_as_docx \<and> suffix ''.docx'' (originalname text_as_docx)
   \<and> detectMime demo_env demo_disk (path text_as_docx) = None
   \<and> convert_one demo_env ''docx'' (demo_disk, []) text_as_docx = Inl ''not a zip file''
   \<and> convert_one demo_env ''pptx'' (demo_disk, []) text_as_docx
        = Inr (demo_disk, [Err ''Unsupported target: pptx''])
   \<and> fileFilter letter_docx \<and> suffix ''.docx'' (originalname letter_docx)
   \<and> detectMime demo_env demo_disk (path letter_docx) = Some ''application/zip''
   \<and> convert_one demo_env ''txt'' (demo_disk, []) letter_docx
        = Inr (demo_disk(''/srv/app/converted/letter.txt'' \<mapsto> [0x54, 0x69, 0x74, 0x6C, 0x65]),
               [Out ''/srv/app/converted/letter.txt'' ''letter.txt''])"
proof -
  have x: "toTxtFromDocx demo_env demo_disk (path text_as_docx) = Inl ''not a zip file''"
    by (simp add: toTxtFromDocx_def readFile_def text_as_docx_def demo_disk_def demo_env_def)
  have y: "toTxtFromDocx demo_env demo_disk (path letter_docx) = Inr [0x54, 0x69, 0x74, 0x6C, 0x65]"
    by (simp add: toTxtFromDocx_def readFile_def letter_docx_def demo_disk_def demo_env_def
          trim_def isWhiteSpace_def)
  have l: "fileFilter letter_docx" "suffix ''.docx'' (originalname letter_docx)"
    "detectMime demo_env demo_disk (path letter_docx) = Some ''application/zip''"
    "basename (originalname letter_docx) ''.docx'' = ''letter''"
    "utf8_encode [0x54, 0x69, 0x74, 0x6C, 0x65] = [0x54, 0x69, 0x74, 0x6C, 0x65]"
    by (simp_all add: letter_docx_def fileFilter_def extname_def last_component_def allowedExt_def
          toLowerCase_def toLowerCase_char_def suffix_to_prefix detectMime_def readFile_def
          demo_disk_def demo_env_def basename_def utf8_encode_def utf8_encode_cp_def)
  have p: "path_join [OUT_DIR demo_env, ''letter.txt''] = ''/srv/app/converted/letter.txt''"
    by (simp add: demo_OUT_DIR path_join_def path_normalize_def isAbsolute_def)
  have a: "convert_one demo_env ''txt'' (demo_disk, []) pdf_as_docx
        = Inr (demo_disk, [Err ''Not a DOCX file: report.docx''])"
    using docx_rejected_on_detected_foreign_mime [OF demo_filter(5) demo_suffix(5),
        of demo_env demo_disk "''txt''" "[]"]
    by (simp add: demo_detect) (simp add: pdf_as_docx_def)
  have b: "convert_one demo_env ''docx'' (demo_disk, []) text_as_docx = Inl ''not a zip file''"
    "convert_one demo_env ''pptx'' (demo_disk, []) text_as_docx
        = Inr (demo_disk, [Err ''Unsupported target: pptx''])"
    using docx_rejected_on_detected_foreign_mime [OF demo_filter(6) demo_suffix(6),
        of demo_env demo_disk "''pptx''" "[]"]
    by (simp_all add: demo_detect x)
  have c: "convert_one demo_env ''txt'' (demo_disk, []) letter_docx
        = Inr (demo_disk(''/srv/app/converted/letter.txt'' \<mapsto> [0x54, 0x69, 0x74, 0x6C, 0x65]),
               [Out ''/srv/app/converted/letter.txt'' ''letter.txt''])"
    using docx_rejected_on_detected_foreign_mime [OF l(1,2), of demo_env demo_disk "''txt''" "[]"]
    by (simp add: l y p)
  show ?thesis
    using demo_filter(5,6) demo_suffix(5,6) demo_detect l(1,2,3) a b c by simp
qed

text \<open>
  C8. The claim is that the bytes written for an accepted \<open>.txt\<close> upload under the target
  \<open>txt\<close> are the bytes of the upload. The content is decoded as UTF-8 and the text is
  encoded again, and the decoder replaces what is not UTF-8: the upload \<open>legacy.txt\<close>
  with the bytes \<open>FF 41\<close>, which has no zero byte and is accepted, is written as
  \<open>EF BF BD 41\<close>.
\<close>

theorem txt_round_trip_counterexample:
  "fileFilter legacy_txt \<and> suffix ''.txt'' (originalname legacy_txt)
   \<and> demo_disk (path legacy_txt) = Some [0xFF, 0x41]
   \<and> looksLikeText demo_disk (path legacy_txt)
   \<and> convert_one demo_env ''txt'' (demo_disk, []) legacy_txt
        = Inr (demo_disk(''/srv/app/converted/legacy.txt'' \<mapsto> [0xEF, 0xBF, 0xBD, 0x41]),
               [Out ''/srv/app/converted/legacy.txt'' ''legacy.txt''])
   \<and> [0xEF, 0xBF, 0xBD, 0x41] \<noteq> [0xFF, 0x41 :: byte]"
proof -
  have x: "toLowerCase (extname (originalname legacy_txt)) = ''.txt''"
    "fileFilter legacy_txt" "suffix ''.txt'' (originalname legacy_txt)"
    by (simp_all add: legacy_txt_def fileFilter_def allowedExt_def extname_def last_component_def
          toLowerCase_def toLowerCase_char_def suffix_to_prefix)
  have c: "demo_disk (path legacy_txt) = Some [0xFF, 0x41]"
    "looksLikeText demo_disk (path legacy_txt)"
    by (simp_all add: legacy_txt_def demo_disk_def looksLikeText_def readFile_def)
  have n: "out_name ''txt'' legacy_txt = ''legacy.txt''"
    unfolding out_name_def x(1)
    by (simp add: legacy_txt_def basename_def last_component_def suffix_to_prefix)
  have p: "path_join [OUT_DIR demo_env, ''legacy.txt''] = ''/srv/app/converted/legacy.txt''"
    by (simp add: demo_OUT_DIR path_join_def path_normalize_def isAbsolute_def)
  have u: "utf8_encode (utf8_decode [0xFF, 0x41]) = [0xEF, 0xBF, 0xBD, 0x41]"
    by (simp add: utf8_encode_def utf8_decode_def utf8_scan_unfold utf8_encode_cp_def)
  have "convert_one demo_env ''txt'' (demo_disk, []) legacy_txt
        = Inr (demo_disk(''/srv/app/converted/legacy.txt'' \<mapsto> [0xEF, 0xBF, 0xBD, 0x41]),
               [Out ''/srv/app/converted/legacy.txt'' ''legacy.txt''])"
    using convert_one_txt_to_txt [OF x(1), of demo_disk "[0xFF, 0x41]" demo_env "[]"] c(1)
    by (simp add: n p u)
  then show ?thesis using x c by simp
qed

text \<open>
  C8, as amended. An accepted \<open>.txt\<close> upload without a zero byte, converted with the target
  \<open>txt\<close>: the bytes written to the output file are the content decoded as UTF-8 and
  encoded as UTF-8 again, with nothing trimmed in between, and when the batch is that file
  alone these are the bytes of the file the answer links to. They are the bytes of the
  upload, unchanged, when the content is well-formed UTF-8, and only then.
\<close>

theorem txt_to_txt_round_trip:
  assumes "fileFilter f" and "suffix ''.txt'' (originalname f)"
    and "d (path f) = Some c" and "0 \<notin> set c"
  shows "convert_one e ''txt'' (d, outs) f
           = Inr (d(path_join [OUT_DIR e, basename (originalname f) ''.txt'' @ ''.txt'']
                      \<mapsto> utf8_encode (utf8_decode c)),
                  outs @ [Out (path_join [OUT_DIR e, basename (originalname f) ''.txt'' @ ''.txt''])
                              (basename (originalname f) ''.txt'' @ ''.txt'')])
       \<and> api_convert e (Some ''txt'') [f] \<lparr>disk = d, history = h\<rparr>
           = (JsonUrl (''/download/'' @ nanoid e @ ''/''
                       @ encodeURIComponent (basename (originalname f) ''.txt'' @ ''.txt'')),
              \<lparr>disk = cleanup_uploads [f]
                        (d(path_join [OUT_DIR e, basename (originalname f) ''.txt'' @ ''.txt''] := None,
                           path_join [OUT_DIR e,
                             nanoid e @ ''-'' @ basename (originalname f) ''.txt'' @ ''.txt'']
                             \<mapsto> utf8_encode (utf8_decode c))),
                history = addHistory
                  \<lparr>entry_id = nanoid e,
                   entry_name = basename (originalname f) ''.txt'' @ ''.txt'',
                   entry_count = 1, entry_target = ''txt'', entry_time = date_now e\<rparr> h\<rparr>)
       \<and> (well_formed_utf8 c \<longrightarrow>
            convert_one e ''txt'' (d, outs) f
              = Inr (d(path_join [OUT_DIR e, basename (originalname f) ''.txt'' @ ''.txt''] \<mapsto> c),
                     outs @ [Out (path_join [OUT_DIR e, basename (originalname f) ''.txt'' @ ''.txt''])
                                 (basename (originalname f) ''.txt'' @ ''.txt'')])
          \<and> disk (snd (api_convert e (Some ''txt'') [f] \<lparr>disk = d, history = h\<rparr>))
              = cleanup_uploads [f]
                  (d(path_join [OUT_DIR e, basename (originalname f) ''.txt'' @ ''.txt''] := None,
                     path_join [OUT_DIR e,
                       nanoid e @ ''-'' @ basename (originalname f) ''.txt'' @ ''.txt''] \<mapsto> c)))
       \<and> (\<not> well_formed_utf8 c \<longrightarrow> utf8_encode (utf8_decode c) \<noteq> c)"
proof -
  let ?N = "basename (originalname f) ''.txt'' @ ''.txt''"
  let ?P = "path_join [OUT_DIR e, ?N]"
  let ?b = "utf8_encode (utf8_decode c)"
  have one: "convert_one e ''txt'' (d, outs) f = Inr (d(?P \<mapsto> ?b), outs @ [Out ?P ?N])" for outs
    using assms(3,4) ext_txt [OF assms(1,2)]
    by (simp add: convert_one_def source_text_def looksLikeText_def readFile_def Let_def)
  have ok: "filter has_path [Out ?P ?N] = [Out ?P ?N]" by (simp add: path_join_nonempty)
  have pk: "package e ''txt'' [Out ?P ?N] \<lparr>disk = d(?P \<mapsto> ?b), history = h\<rparr> =
     (\<lparr>disk = d(?P := None, path_join [OUT_DIR e, nanoid e @ ''-'' @ ?N] \<mapsto> ?b),
       history = addHistory
         \<lparr>entry_id = nanoid e, entry_name = ?N, entry_count = 1,
          entry_target = ''txt'', entry_time = date_now e\<rparr> h\<rparr>,
      Inr (JsonUrl (''/download/'' @ nanoid e @ ''/'' @ encodeURIComponent ?N)))"
    using package_one [OF ok, of "\<lparr>disk = d(?P \<mapsto> ?b), history = h\<rparr>" ?b e "''txt''"]
    by simp
  have api: "api_convert e (Some ''txt'') [f] \<lparr>disk = d, history = h\<rparr>
           = (JsonUrl (''/download/'' @ nanoid e @ ''/'' @ encodeURIComponent ?N),
              \<lparr>disk = cleanup_uploads [f]
                        (d(?P := None, path_join [OUT_DIR e, nanoid e @ ''-'' @ ?N] \<mapsto> ?b)),
                history = addHistory
                  \<lparr>entry_id = nanoid e, entry_name = ?N, entry_count = 1,
                   entry_target = ''txt'', entry_time = date_now e\<rparr> h\<rparr>)"
    by (simp add: api_convert_def request_target_values(2) try_block_def one pk Let_def)
  have same: "?b = c" if "well_formed_utf8 c"
    using that utf8_round_trip [of c] by (simp add: well_formed_utf8_def)
  have bad: "?b \<noteq> c" if "\<not> well_formed_utf8 c"
    using that utf8_changed [of c] by (simp add: well_formed_utf8_def)
  show ?thesis
    using one api same bad by simp
qed

theorem txt_to_txt_round_trip_witness:
  "fileFilter accents_txt \<and> suffix ''.txt'' (originalname accents_txt)
   \<and> demo_disk (path accents_txt) = Some [0x20, 0xC3, 0xA9, 0x0A]
   \<and> (0::byte) \<notin> set [0x20, 0xC3, 0xA9, 0x0A]
   \<and> well_formed_utf8 [0x20, 0xC3, 0xA9, 0x0A]
   \<and> convert_one demo_env ''txt'' (demo_disk, []) accents_txt
        = Inr (demo_disk(''/srv/app/converted/accents.txt'' \<mapsto> [0x20, 0xC3, 0xA9, 0x0A]),
               [Out ''/srv/app/converted/accents.txt'' ''accents.txt''])
   \<and> fst (api_convert demo_env (Some ''txt'') [accents_txt] \<lparr>disk = demo_disk, history = []\<rparr>)
        = JsonUrl ''/download/V1StGXR8_Z/accents.txt''
   \<and> disk (snd (api_convert demo_env (Some ''txt'') [accents_txt]
                  \<lparr>disk = demo_disk, history = []\<rparr>))
         ''/srv/app/converted/V1StGXR8_Z-accents.txt'' = Some [0x20, 0xC3, 0xA9, 0x0A]
   \<and> fileFilter legacy_txt \<and> suffix ''.txt'' (originalname legacy_txt)
   \<and> demo_disk (path legacy_txt) = Some [0xFF, 0x41] \<and> (0::byte) \<notin> set [0xFF, 0x41]
   \<and> \<not> well_formed_utf8 [0xFF, 0x41]
   \<and> utf8_encode (utf8_decode [0xFF, 0x41]) \<noteq> [0xFF, 0x41]"
proof -
  have y: "fileFilter legacy_txt" "suffix ''.txt'' (originalname legacy_txt)"
    by (simp_all add: legacy_txt_def fileFilter_def allowedExt_def extname_def last_component_def
          toLowerCase_def toLowerCase_char_def suffix_to_prefix)
  have g: "demo_disk (path legacy_txt) = Some [0xFF, 0x41]" "(0::byte) \<notin> set [0xFF, 0x41]"
    by (simp_all add: demo_disk_def legacy_txt_def)
  have v: "\<not> well_formed_utf8 [0xFF, 0x41]"
    by (simp add: well_formed_utf8_def utf8_scan_unfold)
  from txt_to_txt_round_trip [where f = legacy_txt and d = demo_disk and c = "[0xFF, 0x41]"
        and e = demo_env and outs = "[]" and h = "[]", OF y g,
        THEN conjunct2, THEN conjunct2, THEN conjunct2, THEN mp, OF v]
  have changed: "utf8_encode (utf8_decode [0xFF, 0x41]) \<noteq> [0xFF, 0x41]" .
  have x: "fileFilter accents_txt" "suffix ''.txt'' (originalname accents_txt)"
    by (simp_all add: accents_txt_def fileFilter_def allowedExt_def extname_def last_component_def
          toLowerCase_def toLowerCase_char_def suffix_to_prefix)
  have h: "demo_disk (path accents_txt) = Some [0x20, 0xC3, 0xA9, 0x0A]"
    "(0::byte) \<notin> set [0x20, 0xC3, 0xA9, 0x0A]"
    by (simp_all add: demo_disk_def accents_txt_def)
  have w: "well_formed_utf8 [0x20, 0xC3, 0xA9, 0x0A]"
    by (simp add: well_formed_utf8_def utf8_scan_unfold in_range_def)
  have b: "basename (originalname accents_txt) ''.txt'' = ''accents''"
    by (simp add: accents_txt_def basename_def last_component_def suffix_to_prefix)
  have p: "path_join [OUT_DIR demo_env, ''accents.txt''] = ''/srv/app/converted/accents.txt''"
    "path_join [OUT_DIR demo_env, ''V1StGXR8_Z-accents.txt'']
       = ''/srv/app/converted/V1StGXR8_Z-accents.txt''"
    by (simp_all add: demo_OUT_DIR path_join_def path_normalize_def isAbsolute_def)
  have u: "encodeURIComponent ''accents.txt'' = ''accents.txt''"
    by (simp add: encodeURIComponent_def unreserved_def)
  note t = txt_to_txt_round_trip [where f = accents_txt and d = demo_disk
        and c = "[0x20, 0xC3, 0xA9, 0x0A]" and e = demo_env and outs = "[]" and h = "[]",
        OF x h]
  from t [THEN conjunct2, THEN conjunct1]
  have url: "fst (api_convert demo_env (Some ''txt'') [accents_txt]
                     \<lparr>disk = demo_disk, history = []\<rparr>)
        = JsonUrl ''/download/V1StGXR8_Z/accents.txt''"
    by (simp add: b u demo_env_facts(3))
  from t [THEN conjunct2, THEN conjunct2, THEN conjunct1, THEN mp, OF w]
  have one: "convert_one demo_env ''txt'' (demo_disk, []) accents_txt
        = Inr (demo_disk(''/srv/app/converted/accents.txt'' \<mapsto> [0x20, 0xC3, 0xA9, 0x0A]),
               [Out ''/srv/app/converted/accents.txt'' ''accents.txt''])"
    and dk: "disk (snd (api_convert demo_env (Some ''txt'') [accents_txt]
                          \<lparr>disk = demo_disk, history = []\<rparr>))
        = cleanup_uploads [accents_txt]
            (demo_disk(''/srv/app/converted/accents.txt'' := None,
                       ''/srv/app/converted/V1StGXR8_Z-accents.txt'' \<mapsto> [0x20, 0xC3, 0xA9, 0x0A]))"
    by (simp_all add: b p u demo_env_facts(3))
  have "disk (snd (api_convert demo_env (Some ''txt'') [accents_txt]
                     \<lparr>disk = demo_disk, history = []\<rparr>))
         ''/srv/app/converted/V1StGXR8_Z-accents.txt'' = Some [0x20, 0xC3, 0xA9, 0x0A]"
    unfolding dk by (simp add: cleanup_uploads_def remove_all_apply accents_txt_def)
  then show ?thesis
    using x h w one url y g v changed by simp
qed

text \<open>
  C9. Whatever the handler answers to a batch that is not empty (a link to one converted
  file or to an archive, status 422, or status 500 after an exception), every uploaded
  file that has a path is gone from the disk when it has finished; these are all the
  answers there are.
\<close>

theorem uploads_deleted_on_every_exit:
  "(\<forall>f \<in> set files. path f \<noteq> [] \<longrightarrow> disk (snd (api_convert e bt files s)) (path f) = None)
   \<and> (files \<noteq> [] \<longrightarrow>
        (\<exists>m. fst (api_convert e bt files s) = JsonError 422 m)
        \<or> fst (api_convert e bt files s) = JsonError 500 ''Conversion failed''
        \<or> (\<exists>u. fst (api_convert e bt files s) = JsonUrl u))"
proof (cases "files = []")
  case True
  then show ?thesis by simp
next
  case False
  then show ?thesis
    using api_convert_exits [OF False, of e bt s]
    by (auto simp: api_convert_disk cleanup_uploads_def remove_all_apply)
qed

theorem uploads_deleted_on_every_exit_witness:
  "path notes_txt \<noteq> [] \<and> path fake_pdf \<noteq> [] \<and> path text_as_docx \<noteq> []
   \<and> demo_disk (path notes_txt) \<noteq> None \<and> demo_disk (path text_as_docx) \<noteq> None
   \<and> fst (api_convert demo_env None [notes_txt, fake_pdf] \<lparr>disk = demo_disk, history = []\<rparr>)
       = JsonUrl ''/download/V1StGXR8_Z/notes.txt''
   \<and> disk (snd (api_convert demo_env None [notes_txt, fake_pdf]
                  \<lparr>disk = demo_disk, history = []\<rparr>)) (path notes_txt) = None
   \<and> disk (snd (api_convert demo_env None [notes_txt, fake_pdf]
                  \<lparr>disk = demo_disk, history = []\<rparr>)) (path fake_pdf) = None
   \<and> fst (api_convert demo_env (Some ''txt'') [text_as_docx] \<lparr>disk = demo_disk, history = []\<rparr>)
       = JsonError 500 ''Conversion failed''
   \<and> disk (snd (api_convert demo_env (Some ''txt'') [text_as_docx]
                  \<lparr>disk = demo_disk, history = []\<rparr>)) (path text_as_docx) = None"
proof -
  let ?s = "\<lparr>disk = demo_disk, history = []\<rparr>"
  have p: "path notes_txt \<noteq> []" "path fake_pdf \<noteq> []" "path text_as_docx \<noteq> []"
    "demo_disk (path notes_txt) \<noteq> None" "demo_disk (path text_as_docx) \<noteq> None"
    by (simp_all add: demo_files demo_disk_def)
  have u: "encodeURIComponent ''notes.txt'' = ''notes.txt''"
    by (simp add: encodeURIComponent_def unreserved_def)
  have l: "convert_all demo_env ''txt'' (demo_disk, []) [notes_txt, fake_pdf]
     = (demo_disk(''/srv/app/converted/notes.txt'' \<mapsto> [0x68, 0x69]),
        Inr [Out ''/srv/app/converted/notes.txt'' ''notes.txt'', Err ''Invalid PDF file: fake.pdf''])"
    by (simp add: demo_notes_step demo_fake_pdf_step)
  have a: "fst (api_convert demo_env None [notes_txt, fake_pdf] ?s)
             = JsonUrl ''/download/V1StGXR8_Z/notes.txt''"
    by (simp add: api_convert_response request_target_values try_block_def l package_def rename_def
          demo_env_facts(3) u del: convert_all.simps)
  have b: "fst (api_convert demo_env (Some ''txt'') [text_as_docx] ?s)
             = JsonError 500 ''Conversion failed''"
    by (rule api_convert_thrown [where d = demo_disk and x = "''not a zip file''"])
       (simp_all add: request_target_values demo_thrown del: convert_all.simps)
  from uploads_deleted_on_every_exit [of "[notes_txt, fake_pdf]" demo_env None ?s]
  have c: "disk (snd (api_convert demo_env None [notes_txt, fake_pdf] ?s)) (path notes_txt) = None"
    "disk (snd (api_convert demo_env None [notes_txt, fake_pdf] ?s)) (path fake_pdf) = None"
    using p by simp_all
  from uploads_deleted_on_every_exit [of "[text_as_docx]" demo_env "Some ''txt''" ?s]
  have d: "disk (snd (api_convert demo_env (Some ''txt'') [text_as_docx] ?s)) (path text_as_docx) = None"
    using p by simp
  show ?thesis using p a b c d by simp
qed



end
